theory Spec2Isabelle
  imports Complex_Main "HOL-Library.Word"
begin

section \<open>Numbers\<close>

text \<open>
  The program computes with JavaScript numbers (and, in the shader, GLSL floats). They are
  modelled as the reals: rounding, overflow and denormals are not part of the model.
  In the analyser a NaN can only come from reading past the end of the byte array
  (\<open>undefined\<close>) or from \<open>0 / 0\<close> in a band average; both are modelled as \<open>None\<close>
  of type \<open>real option\<close>, and a comparison with NaN is false as in JavaScript.
\<close>

definition nanAdd :: "real option \<Rightarrow> real option \<Rightarrow> real option" where
  "nanAdd a b = (case a of None \<Rightarrow> None
                 | Some x \<Rightarrow> (case b of None \<Rightarrow> None | Some y \<Rightarrow> Some (x + y)))"

text \<open>\<open>x || 0\<close> on a number: \<open>0\<close> when \<open>x\<close> is falsy (zero or NaN), else \<open>x\<close>.\<close>

definition orZero :: "real \<Rightarrow> real" where
  "orZero x = (if x = 0 then 0 else x)"

section \<open>Parameter store (src/lib/debugStore.ts)\<close>

record DebugStore =
  sensitivity :: real
  noiseGate :: real
  animationSpeed :: real
  isMuted :: bool

definition debugStore :: DebugStore where
  "debugStore = \<lparr>sensitivity = 3.0, noiseGate = 0.08, animationSpeed = 1.0, isMuted = False\<rparr>"

section \<open>Signal analyser (hook useVoiceAnalyser)\<close>

record VoiceData =
  amplitude :: real
  lowEnergy :: real
  midEnergy :: real
  highEnergy :: real

definition EMPTY_VOICE_DATA :: VoiceData where
  "EMPTY_VOICE_DATA = \<lparr>amplitude = 0, lowEnergy = 0, midEnergy = 0, highEnergy = 0\<rparr>"

record MicDevice =
  deviceId :: string
  label :: string

subsection \<open>The platform objects the hook holds\<close>

datatype ContextState = Running | Suspended | Closed

record AnalyserNode =
  fftSize :: nat
  smoothingTimeConstant :: real
  minDecibels :: real
  maxDecibels :: real

definition frequencyBinCount :: "AnalyserNode \<Rightarrow> nat" where
  "frequencyBinCount a = fftSize a div 2"

text \<open>A captured stream: its identity and, per audio track, the label and the device id of
  its settings (an empty string where the platform gives none).\<close>

record MediaStream =
  streamId :: nat
  audioTracks :: "(string \<times> string) list"

record SourceNode =
  sourceStream :: nat
  isConnected :: bool

datatype DeviceKind = AudioInput | AudioOutput | VideoInput

record MediaDeviceInfo =
  infoKind :: DeviceKind
  infoDeviceId :: string
  infoLabel :: string

record MediaTrackConstraints =
  echoCancellation :: bool
  noiseSuppression :: bool
  autoGainControl :: bool
  exactDeviceId :: "string option"

datatype MediaError = NotAllowedError | NotFoundError | InvalidStateError

text \<open>
  What the platform answers during one call of \<open>startListening\<close>: the result of
  \<open>getUserMedia\<close> for the constraints asked, of \<open>enumerateDevices\<close>, the state of a newly
  constructed audio context, and whether \<open>resume()\<close> succeeds. These are the calls whose
  rejection the \<open>try\<close> block can catch in the model; constructing the context, the source
  node and the analyser node is taken not to throw.
\<close>

record Platform =
  getUserMedia :: "MediaTrackConstraints \<Rightarrow> MediaError + MediaStream"
  enumerateDevices :: "MediaError + MediaDeviceInfo list"
  newContextState :: ContextState
  resumeOk :: bool

text \<open>
  The state of the hook: its React state, its refs, and the part of the browser the refs
  point into: which streams still have live (not stopped) tracks, which animation-frame
  handles are scheduled, and the next handle (handles are non-zero).
\<close>

record Hook =
  isListening :: bool
  currentMic :: string
  availableMics :: "MicDevice list"
  selectedDeviceId :: "string option"
  voiceData :: VoiceData
  audioContextRef :: "ContextState option"
  analyserRef :: "AnalyserNode option"
  sourceRef :: "SourceNode option"
  streamRef :: "nat option"
  rafIdRef :: nat
  frequencyDataRef :: "8 word list option"
  liveStreams :: "nat set"
  pendingFrames :: "nat set"
  nextHandle :: nat

definition initialHook :: Hook where
  "initialHook = \<lparr>isListening = False, currentMic = [], availableMics = [],
     selectedDeviceId = None, voiceData = EMPTY_VOICE_DATA, audioContextRef = None,
     analyserRef = None, sourceRef = None, streamRef = None, rafIdRef = 0,
     frequencyDataRef = None, liveStreams = {}, pendingFrames = {}, nextHandle = 1\<rparr>"

text \<open>\<open>rafIdRef.current = requestAnimationFrame(analyse)\<close>\<close>

definition requestAnimationFrame :: "Hook \<Rightarrow> Hook" where
  "requestAnimationFrame s =
     s\<lparr>rafIdRef := nextHandle s,
       pendingFrames := insert (nextHandle s) (pendingFrames s),
       nextHandle := nextHandle s + 1\<rparr>"

definition cancelAnimationFrame :: "nat \<Rightarrow> Hook \<Rightarrow> Hook" where
  "cancelAnimationFrame h s = s\<lparr>pendingFrames := pendingFrames s - {h}\<rparr>"

text \<open>\<open>stream.getTracks().forEach((t) => t.stop())\<close>\<close>

definition stopTracks :: "nat \<Rightarrow> Hook \<Rightarrow> Hook" where
  "stopTracks sid s = s\<lparr>liveStreams := liveStreams s - {sid}\<rparr>"

subsection \<open>loadMicrophones\<close>

definition micOf :: "MediaDeviceInfo \<Rightarrow> MicDevice" where
  "micOf d = \<lparr>deviceId = infoDeviceId d,
              label = (if infoLabel d = [] then ''Microphone '' @ take 8 (infoDeviceId d) @ ''...''
                       else infoLabel d)\<rparr>"

definition loadMicrophones :: "Platform \<Rightarrow> Hook \<Rightarrow> Hook" where
  "loadMicrophones p s =
     (case enumerateDevices p of
        Inl e \<Rightarrow> s
      | Inr devices \<Rightarrow>
          s\<lparr>availableMics := map micOf (filter (\<lambda>d. infoKind d = AudioInput) devices)\<rparr>)"

subsection \<open>analyse: one analysis tick\<close>

text \<open>\<open>freqData[i]\<close>: a byte of the array, \<open>undefined\<close> (NaN in a sum) out of range.\<close>

definition byteAt :: "8 word list \<Rightarrow> nat \<Rightarrow> real option" where
  "byteAt freqData i = (if i < length freqData then Some (real (unat (freqData ! i))) else None)"

text \<open>\<open>for (let i = lo; i < hi; i++) sum += freqData[i]\<close>, from \<open>sum = 0\<close>.\<close>

definition bandSum :: "8 word list \<Rightarrow> nat \<Rightarrow> nat \<Rightarrow> real option" where
  "bandSum freqData lo hi = fold (\<lambda>i acc. nanAdd acc (byteAt freqData i)) [lo..<hi] (Some 0)"

text \<open>
  \<open>highSum / ((bufferLength - 50) * 255)\<close>: with \<open>bufferLength = 50\<close> the loop is empty, the
  sum is \<open>0\<close> and the quotient \<open>0 / 0\<close> is NaN.
\<close>

definition highAverage :: "real option \<Rightarrow> nat \<Rightarrow> real option" where
  "highAverage highSum bufferLength =
     (case highSum of None \<Rightarrow> None
      | Some h \<Rightarrow> if bufferLength = 50 then None
                 else Some (h / ((real bufferLength - 50) * 255)))"

text \<open>\<open>raw > gate ? (raw - gate) / (1 - gate) : 0\<close>; a NaN \<open>raw\<close> compares false.\<close>

definition noiseGated :: "real option \<Rightarrow> real \<Rightarrow> real" where
  "noiseGated raw gate =
     (case raw of None \<Rightarrow> 0
      | Some r \<Rightarrow> if r > gate then (r - gate) / (1 - gate) else 0)"

text \<open>The asymmetric envelope follower written out for each band in the source.\<close>

definition attack :: real where "attack = 0.025"
definition release :: real where "release = 0.992"

definition follow :: "real \<Rightarrow> real \<Rightarrow> real" where
  "follow target current =
     (if target > current then current + (target - current) * attack else current * release)"

text \<open>\<open>analyser.getByteFrequencyData(freqData)\<close> copies the spectrum into the array, as many
  bytes as both have.\<close>

definition getByteFrequencyData :: "8 word list \<Rightarrow> 8 word list \<Rightarrow> 8 word list" where
  "getByteFrequencyData spectrum freqData =
     take (length freqData) spectrum @ drop (length spectrum) freqData"

text \<open>The mute branch: every field fades by \<open>0.9\<close>.\<close>

definition muteFade :: "VoiceData \<Rightarrow> VoiceData" where
  "muteFade v = v\<lparr>amplitude := amplitude v * 0.9, lowEnergy := lowEnergy v * 0.9,
                  midEnergy := midEnergy v * 0.9, highEnergy := highEnergy v * 0.9\<rparr>"

text \<open>The band sums, the band averages and the noise gate: the gated
  \<open>(rawBass, rawMid, rawHigh)\<close>.\<close>

definition gatedBands :: "real \<Rightarrow> 8 word list \<Rightarrow> nat \<Rightarrow> real \<times> real \<times> real" where
  "gatedBands gate freqData bufferLength =
     (let bassSum = bandSum freqData 0 6;
          midSum = bandSum freqData 6 50;
          highSum = bandSum freqData 50 bufferLength;
          rawBass = map_option (\<lambda>x. x / (6 * 255)) bassSum;
          rawMid = map_option (\<lambda>x. x / (44 * 255)) midSum;
          rawHigh = highAverage highSum bufferLength;
          rawBass = noiseGated rawBass gate;
          rawMid = noiseGated rawMid gate;
          rawHigh = noiseGated rawHigh gate
      in (rawBass, rawMid, rawHigh))"

text \<open>
  Sensitivity, the envelope follower of each band, the clamp and the amplitude. The source
  assigns to the fields of \<open>v\<close> one after the other; \<open>low\<close>, \<open>mid\<close> and \<open>high\<close> are the
  values of \<open>v.lowEnergy\<close>, \<open>v.midEnergy\<close> and \<open>v.highEnergy\<close> along the way.
\<close>

definition smoothBands :: "real \<Rightarrow> real \<times> real \<times> real \<Rightarrow> VoiceData \<Rightarrow> VoiceData" where
  "smoothBands sens raw v =
     (let rawBass = fst raw;
          rawMid = fst (snd raw);
          rawHigh = snd (snd raw);
          targetBass = min 1 (rawBass * sens * 1.0);
          low = follow targetBass (lowEnergy v);
          targetMid = min 1 (rawMid * sens * 1.2);
          mid = follow targetMid (midEnergy v);
          targetHigh = min 1 (rawHigh * sens * 0.8);
          high = follow targetHigh (highEnergy v);
          low = orZero (max 0 (min 1 low));
          mid = orZero (max 0 (min 1 mid));
          high = orZero (max 0 (min 1 high))
      in v\<lparr>lowEnergy := low, midEnergy := mid, highEnergy := high,
           amplitude := max low (max mid high)\<rparr>)"

text \<open>The callback \<open>analyse\<close>: the guard, the mute branch, the analysis, and in both branches
  the request of the next frame.\<close>

definition analyse :: "DebugStore \<Rightarrow> 8 word list \<Rightarrow> Hook \<Rightarrow> Hook" where
  "analyse store spectrum s =
     (case analyserRef s of None \<Rightarrow> s
      | Some analyser \<Rightarrow>
     (case audioContextRef s of None \<Rightarrow> s
      | Some ctx \<Rightarrow>
       if isMuted store then
         requestAnimationFrame (s\<lparr>voiceData := muteFade (voiceData s)\<rparr>)
       else
         (let freqData = (case frequencyDataRef s of
                            None \<Rightarrow> replicate (frequencyBinCount analyser) 0
                          | Some fd \<Rightarrow> fd);
              freqData = getByteFrequencyData spectrum freqData;
              bufferLength = frequencyBinCount analyser;
              raw = gatedBands (noiseGate store) freqData bufferLength;
              v = smoothBands (sensitivity store) raw (voiceData s)
          in requestAnimationFrame (s\<lparr>frequencyDataRef := Some freqData, voiceData := v\<rparr>))))"

text \<open>The browser running a scheduled frame: a handle that was cancelled never runs.\<close>

definition runFrame :: "nat \<Rightarrow> DebugStore \<Rightarrow> 8 word list \<Rightarrow> Hook \<Rightarrow> Hook" where
  "runFrame h store spectrum s =
     (if h \<in> pendingFrames s
      then analyse store spectrum (s\<lparr>pendingFrames := pendingFrames s - {h}\<rparr>)
      else s)"

subsection \<open>startListening, switchMicrophone, stopListening\<close>

definition audioConstraints :: "string option \<Rightarrow> MediaTrackConstraints" where
  "audioConstraints dev =
     \<lparr>echoCancellation = False, noiseSuppression = False, autoGainControl = True,
      exactDeviceId = (case dev of None \<Rightarrow> None
                       | Some d \<Rightarrow> if d = [] then None else Some d)\<rparr>"

definition newAnalyser :: AnalyserNode where
  "newAnalyser = \<lparr>fftSize = 256, smoothingTimeConstant = 0.85,
                  minDecibels = - 90, maxDecibels = - 10\<rparr>"

text \<open>
  \<open>startListening\<close> in two parts. First the statements before \<open>getUserMedia\<close>: reset the
  VoiceData record, stop the tracks of the existing stream, cancel the scheduled frame.
  Each \<open>await\<close> of the function is taken to resume before any other callback of the hook
  runs.
\<close>

definition stopStream :: "Hook \<Rightarrow> Hook" where
  "stopStream s = (case streamRef s of None \<Rightarrow> s | Some sid \<Rightarrow> stopTracks sid s)"

definition cancelFrame :: "Hook \<Rightarrow> Hook" where
  "cancelFrame s = (if rafIdRef s \<noteq> 0 then cancelAnimationFrame (rafIdRef s) s else s)"

definition startReset :: "Hook \<Rightarrow> Hook" where
  "startReset s = cancelFrame (stopStream (s\<lparr>voiceData := EMPTY_VOICE_DATA\<rparr>))"

text \<open>
  Then the statements after \<open>getUserMedia\<close> has resolved with a stream, one definition for
  each block of the source.
\<close>

definition adoptStream :: "MediaStream \<Rightarrow> Hook \<Rightarrow> Hook" where
  "adoptStream stream s =
     s\<lparr>streamRef := Some (streamId stream),
       liveStreams := insert (streamId stream) (liveStreams s)\<rparr>"

definition describeStream :: "MediaStream \<Rightarrow> Hook \<Rightarrow> Hook" where
  "describeStream stream s =
     s\<lparr>currentMic := (case audioTracks stream of [] \<Rightarrow> ''Unknown Microphone''
                       | t # ts \<Rightarrow> if fst t = [] then ''Unknown Microphone'' else fst t),
       selectedDeviceId := (case audioTracks stream of [] \<Rightarrow> None
                            | t # ts \<Rightarrow> if snd t = [] then None else Some (snd t))\<rparr>"

definition ensureContext :: "Platform \<Rightarrow> Hook \<Rightarrow> Hook" where
  "ensureContext p s =
     (if audioContextRef s = None \<or> audioContextRef s = Some Closed
      then s\<lparr>audioContextRef := Some (newContextState p)\<rparr> else s)"

definition resumeContext :: "Hook \<Rightarrow> Hook" where
  "resumeContext s =
     (if audioContextRef s = Some Suspended then s\<lparr>audioContextRef := Some Running\<rparr> else s)"

text \<open>The old source node is disconnected and dropped; the new one is connected to the
  analyser, which is created and configured if there is none.\<close>

definition connectSource :: "MediaStream \<Rightarrow> Hook \<Rightarrow> Hook" where
  "connectSource stream s =
     s\<lparr>sourceRef := Some \<lparr>sourceStream = streamId stream, isConnected = True\<rparr>,
       analyserRef := (case analyserRef s of None \<Rightarrow> Some newAnalyser | Some a \<Rightarrow> Some a)\<rparr>"

text \<open>
  A rejected \<open>resume()\<close> is caught like a rejected \<open>getUserMedia\<close>: the result is \<open>false\<close> and
  the state is what the statements before it left.
\<close>

definition startConnect :: "Platform \<Rightarrow> MediaStream \<Rightarrow> Hook \<Rightarrow> bool \<times> Hook" where
  "startConnect p stream s =
     (let s = ensureContext p (describeStream stream (loadMicrophones p (adoptStream stream s)))
      in if audioContextRef s = Some Suspended \<and> \<not> resumeOk p then (False, s)
         else (True, requestAnimationFrame
                       ((connectSource stream (resumeContext s))\<lparr>isListening := True\<rparr>)))"

definition startListening :: "Platform \<Rightarrow> string option \<Rightarrow> Hook \<Rightarrow> bool \<times> Hook" where
  "startListening p dev s =
     (let s = startReset s
      in case getUserMedia p (audioConstraints dev) of
           Inl err \<Rightarrow> (False, s)
         | Inr stream \<Rightarrow> startConnect p stream s)"

definition switchMicrophone :: "Platform \<Rightarrow> string \<Rightarrow> Hook \<Rightarrow> Hook" where
  "switchMicrophone p dev s = snd (startListening p (Some dev) s)"

definition stopListening :: "Hook \<Rightarrow> Hook" where
  "stopListening s =
     (stopStream (cancelAnimationFrame (rafIdRef s) s))
       \<lparr>audioContextRef := None, analyserRef := None, sourceRef := None,
        streamRef := None, frequencyDataRef := None,
        voiceData := EMPTY_VOICE_DATA, isListening := False\<rparr>"

section \<open>Blob material (BlobMaterial and the vertex shader chunk)\<close>

datatype vec3 = Vec3 (vx: real) (vy: real) (vz: real)

record BlobUniforms =
  time :: real
  distort :: real
  frequency :: real
  speed :: real
  surfaceDistort :: real
  surfaceFrequency :: real
  surfaceSpeed :: real
  surfaceTime :: real
  numberOfWaves :: real
  fixNormals :: real
  gooPoleAmount :: real
  surfacePoleAmount :: real

definition BLOB_DEFAULTS :: BlobUniforms where
  "BLOB_DEFAULTS = \<lparr>time = 0, distort = 0.6, frequency = 1.5, speed = 0.5,
     surfaceDistort = 1.4, surfaceFrequency = 1.2, surfaceSpeed = 0.4, surfaceTime = 0,
     numberOfWaves = 2.5, fixNormals = 1.0, gooPoleAmount = 0.95,
     surfacePoleAmount = 0.85\<rparr>"

record MouseUniforms =
  mouseHit :: vec3
  mouseRadius :: real
  mouseStrength :: real

definition createMouseUniforms :: MouseUniforms where
  "createMouseUniforms = \<lparr>mouseHit = Vec3 0 0 0, mouseRadius = 0.55, mouseStrength = 0.0\<rparr>"

text \<open>\<open>BlobMaterial.tick(delta)\<close>\<close>

definition tick :: "real \<Rightarrow> BlobUniforms \<Rightarrow> BlobUniforms" where
  "tick delta u =
     (let u = u\<lparr>time := time u + delta * speed u\<rparr>
      in u\<lparr>surfaceTime := surfaceTime u + delta * surfaceSpeed u\<rparr>)"

subsection \<open>The displacement function of the vertex shader\<close>










section \<open>Surface animator (component VoiceReactiveBlob)\<close>

definition IDLE_distort :: real where "IDLE_distort = distort BLOB_DEFAULTS"
definition IDLE_speed :: real where "IDLE_speed = speed BLOB_DEFAULTS"
definition IDLE_surfaceDistort :: real where "IDLE_surfaceDistort = surfaceDistort BLOB_DEFAULTS"
definition IDLE_surfaceSpeed :: real where "IDLE_surfaceSpeed = surfaceSpeed BLOB_DEFAULTS"

definition ACTIVE_distort :: real where "ACTIVE_distort = 0.70"
definition ACTIVE_speed :: real where "ACTIVE_speed = 0.58"
definition ACTIVE_surfaceDistort :: real where "ACTIVE_surfaceDistort = 1.7"
definition ACTIVE_surfaceSpeed :: real where "ACTIVE_surfaceSpeed = 0.48"

definition SCALE_IDLE :: real where "SCALE_IDLE = 0.64"
definition SCALE_ACTIVE :: real where "SCALE_ACTIVE = 0.96"

text \<open>
  The state the component keeps between frames: the material's uniforms, mouse uniforms,
  opacity and transparency flag, the refs of the component, the mesh's scale and rotation,
  and the \<open>levels\<close> data of the hidden DOM element (low, mid, high).
\<close>

record Blob =
  uniforms :: BlobUniforms
  mouseUniforms :: MouseUniforms
  opacity :: real
  transparent :: bool
  fadeIn :: real
  levelWriteCounter :: nat
  currentScale :: real
  smoothedHit :: vec3
  smoothedStrength :: real
  localHit :: vec3
  raycastFrame :: nat
  meshScale :: vec3
  rotationX :: real
  rotationY :: real
  levels :: "(real \<times> real \<times> real) option"

definition initialBlob :: Blob where
  "initialBlob = \<lparr>uniforms = BLOB_DEFAULTS, mouseUniforms = createMouseUniforms,
     opacity = 0, transparent = True, fadeIn = 0, levelWriteCounter = 0,
     currentScale = SCALE_IDLE, smoothedHit = Vec3 0 0 0, smoothedStrength = 0,
     localHit = Vec3 0 0 0, raycastFrame = 0, meshScale = Vec3 1 1 1,
     rotationX = 0, rotationY = 0, levels = None\<rparr>"

text \<open>
  What one render frame reads from outside: the frame delta, the analyser's VoiceData, the
  parameter store, whether the mesh is mounted, the world-space intersections of the pointer
  ray with the mesh (nearest first) and the mesh's \<open>worldToLocal\<close>, and whether the hidden
  DOM element is found.
\<close>

record Frame =
  delta :: real
  voice :: VoiceData
  store :: DebugStore
  meshMounted :: bool
  hits :: "vec3 list"
  worldToLocal :: "vec3 \<Rightarrow> vec3"
  levelsElement :: bool

definition attackRate :: real where "attackRate = 0.02"
definition releaseRate :: real where "releaseRate = 0.008"

definition lr :: "real \<Rightarrow> real \<Rightarrow> real" where
  "lr cur tgt = (if tgt > cur then attackRate else releaseRate)"

text \<open>\<open>Vector3.lerp(v, alpha)\<close>\<close>

definition lerp :: "vec3 \<Rightarrow> vec3 \<Rightarrow> real \<Rightarrow> vec3" where
  "lerp a v alpha = Vec3 (vx a + (vx v - vx a) * alpha) (vy a + (vy v - vy a) * alpha)
                         (vz a + (vz v - vz a) * alpha)"

definition fadeStep :: "real \<Rightarrow> Blob \<Rightarrow> Blob" where
  "fadeStep dt b =
     (if fadeIn b < 1 then
        (let b = b\<lparr>fadeIn := min 1 (fadeIn b + dt * 0.7)\<rparr>;
             b = b\<lparr>opacity := fadeIn b * fadeIn b\<rparr>
         in if fadeIn b \<ge> 1 then b\<lparr>transparent := False\<rparr> else b)
      else b)"

text \<open>\<open>x.value += (tgt - x.value) * lr(x.value, tgt)\<close> sets \<open>x.value\<close> to
  \<open>approach x.value tgt\<close>.\<close>

definition approach :: "real \<Rightarrow> real \<Rightarrow> real" where
  "approach cur tgt = cur + (tgt - cur) * lr cur tgt"

definition shapeStep :: "VoiceData \<Rightarrow> real \<Rightarrow> Blob \<Rightarrow> Blob" where
  "shapeStep v speedMult b =
     (let amp = amplitude v;
          mid = midEnergy v;
          high = highEnergy v;
          targetDistort = IDLE_distort + (ACTIVE_distort - IDLE_distort) * amp;
          targetSpeed = (IDLE_speed + (ACTIVE_speed - IDLE_speed) * amp) * speedMult;
          surfaceAmp = max mid high;
          targetSurfaceDistort =
            IDLE_surfaceDistort + (ACTIVE_surfaceDistort - IDLE_surfaceDistort) * surfaceAmp;
          targetSurfaceSpeed =
            (IDLE_surfaceSpeed + (ACTIVE_surfaceSpeed - IDLE_surfaceSpeed) * amp) * speedMult;
          u = uniforms b;
          u = u\<lparr>distort := approach (distort u) targetDistort,
                speed := approach (speed u) targetSpeed,
                surfaceDistort := approach (surfaceDistort u) targetSurfaceDistort,
                surfaceSpeed := approach (surfaceSpeed u) targetSurfaceSpeed\<rparr>;
          targetScale = SCALE_IDLE + (SCALE_ACTIVE - SCALE_IDLE) * amp;
          scaleRate = (if targetScale > currentScale b then 0.06 else 0.03)
      in b\<lparr>uniforms := u,
           currentScale := currentScale b + (targetScale - currentScale b) * scaleRate\<rparr>)"

definition meshStep :: "bool \<Rightarrow> real \<Rightarrow> real \<Rightarrow> Blob \<Rightarrow> Blob" where
  "meshStep mounted dt speedMult b =
     (if mounted then
        (let s = currentScale b;
             b = b\<lparr>meshScale := Vec3 s s s\<rparr>;
             b = b\<lparr>rotationY := rotationY b + dt * 0.08 * speedMult\<rparr>
         in b\<lparr>rotationX := rotationX b + dt * 0.03 * speedMult\<rparr>)
      else b)"

definition raycastStep :: "Frame \<Rightarrow> Blob \<Rightarrow> Blob" where
  "raycastStep f b =
     (let b = b\<lparr>raycastFrame := raycastFrame b + 1\<rparr>
      in if meshMounted f \<and> raycastFrame b mod 3 = 0 then
           (let b = (case hits f of
                       h # hs \<Rightarrow>
                         (let b = b\<lparr>localHit := worldToLocal f h\<rparr>;
                              b = b\<lparr>smoothedHit := lerp (smoothedHit b) (localHit b) 0.12\<rparr>
                          in b\<lparr>smoothedStrength :=
                                 smoothedStrength b + (0.4 - smoothedStrength b) * 0.12\<rparr>)
                     | [] \<Rightarrow> b\<lparr>smoothedStrength := smoothedStrength b * 0.92\<rparr>)
            in b\<lparr>mouseUniforms := (mouseUniforms b)\<lparr>mouseHit := smoothedHit b,
                                                        mouseStrength := smoothedStrength b\<rparr>\<rparr>)
         else b)"

definition levelsStep :: "Frame \<Rightarrow> Blob \<Rightarrow> Blob" where
  "levelsStep f b =
     (let b = b\<lparr>levelWriteCounter := levelWriteCounter b + 1\<rparr>
      in if levelWriteCounter b mod 6 = 0 \<and> levelsElement f
         then b\<lparr>levels := Some (lowEnergy (voice f), midEnergy (voice f), highEnergy (voice f))\<rparr>
         else b)"

text \<open>
  The callback given to \<open>useFrame\<close>, its blocks in the order of the source. The material
  is constructed with its uniforms, so the guard \<open>if (!u) return\<close> at its head never fires
  and is left out.
\<close>

definition useFrame :: "Frame \<Rightarrow> Blob \<Rightarrow> Blob" where
  "useFrame f b =
     (let dt = min (delta f) 0.1;
          b = fadeStep dt b;
          speedMult = animationSpeed (store f);
          b = b\<lparr>uniforms := tick (dt * speedMult) (uniforms b)\<rparr>;
          b = shapeStep (voice f) speedMult b;
          b = meshStep (meshMounted f) dt speedMult b;
          b = raycastStep f b
      in levelsStep f b)"

text \<open>The state after the first \<open>n\<close> frames of a sequence of frame inputs.\<close>

primrec frames :: "(nat \<Rightarrow> Frame) \<Rightarrow> nat \<Rightarrow> Blob \<Rightarrow> Blob" where
  "frames fs 0 b = b"
| "frames fs (Suc n) b = useFrame (fs n) (frames fs n b)"

text \<open>The same for the analyser: \<open>n\<close> ticks with the store and spectrum of each tick.\<close>

primrec ticks :: "(nat \<Rightarrow> DebugStore \<times> 8 word list) \<Rightarrow> nat \<Rightarrow> Hook \<Rightarrow> Hook" where
  "ticks env 0 s = s"
| "ticks env (Suc n) s = analyse (fst (env n)) (snd (env n)) (ticks env n s)"

section \<open>Notions used in the properties\<close>

text \<open>The invariant of the VoiceData record: every field in \<open>[0, 1]\<close> and the amplitude the
  maximum of the three band energies.\<close>

definition voiceInvariant :: "VoiceData \<Rightarrow> bool" where
  "voiceInvariant v =
     (0 \<le> lowEnergy v \<and> lowEnergy v \<le> 1 \<and> 0 \<le> midEnergy v \<and> midEnergy v \<le> 1
      \<and> 0 \<le> highEnergy v \<and> highEnergy v \<le> 1 \<and> 0 \<le> amplitude v \<and> amplitude v \<le> 1
      \<and> amplitude v = max (lowEnergy v) (max (midEnergy v) (highEnergy v)))"

text \<open>One band of \<open>smoothBands\<close>: the follower, then the clamp.\<close>

definition bandStep :: "real \<Rightarrow> real \<Rightarrow> real" where
  "bandStep target current = orZero (max 0 (min 1 (follow target current)))"

text \<open>
  The states the hook can be in: from the initial state, any sequence of calls of
  \<open>startListening\<close> and \<open>stopListening\<close> and of scheduled frames run by the browser, whatever
  the platform answers and whatever the parameter store and the spectrum hold.
\<close>

inductive reachable :: "Hook \<Rightarrow> bool" where
  reachable_init: "reachable initialHook"
| reachable_start: "reachable s \<Longrightarrow> reachable (snd (startListening p dev s))"
| reachable_stop: "reachable s \<Longrightarrow> reachable (stopListening s)"
| reachable_frame: "reachable s \<Longrightarrow> reachable (runFrame h st spectrum s)"

text \<open>What every reachable state satisfies about the analyser node, the audio context and
  the byte array.\<close>

definition hookInvariant :: "Hook \<Rightarrow> bool" where
  "hookInvariant s =
     ((analyserRef s = None \<or> analyserRef s = Some newAnalyser)
      \<and> (analyserRef s = None \<or> audioContextRef s \<noteq> None)
      \<and> (case frequencyDataRef s of None \<Rightarrow> True | Some fd \<Rightarrow> length fd = 128))"

text \<open>At most the frame named by \<open>rafIdRef\<close> is scheduled, and only while the analyser node
  and the audio context exist.\<close>

definition frameInvariant :: "Hook \<Rightarrow> bool" where
  "frameInvariant s =
     (pendingFrames s \<subseteq> {rafIdRef s} \<and> 0 \<notin> pendingFrames s \<and> 0 < nextHandle s
      \<and> (pendingFrames s = {} \<or> (analyserRef s \<noteq> None \<and> audioContextRef s \<noteq> None)))"

text \<open>Concrete platforms, states and spectra for the examples.\<close>

definition grantingPlatform :: Platform where
  "grantingPlatform =
     \<lparr>getUserMedia = (\<lambda>c. Inr \<lparr>streamId = 1,
                                  audioTracks = [(''Built-in Microphone'', ''default'')]\<rparr>),
      enumerateDevices = Inr [\<lparr>infoKind = AudioInput, infoDeviceId = ''default'',
                               infoLabel = ''Built-in Microphone''\<rparr>],
      newContextState = Running, resumeOk = True\<rparr>"

definition denyingPlatform :: Platform where
  "denyingPlatform =
     \<lparr>getUserMedia = (\<lambda>c. Inl NotAllowedError), enumerateDevices = Inr [],
      newContextState = Running, resumeOk = True\<rparr>"

definition listening :: Hook where
  "listening = snd (startListening grantingPlatform None initialHook)"

definition loud :: "8 word list" where "loud = replicate 128 255"
definition silent :: "8 word list" where "silent = replicate 128 0"

definition mutedStore :: DebugStore where
  "mutedStore = debugStore\<lparr>isMuted := True\<rparr>"

definition fadingSession :: Hook where
  "fadingSession = initialHook\<lparr>analyserRef := Some newAnalyser, audioContextRef := Some Running,
     voiceData := \<lparr>amplitude = 1, lowEnergy = 1, midEnergy = 0.5, highEnergy = 0.25\<rparr>\<rparr>"

text \<open>The session after its first frame has run on a full-scale spectrum.\<close>

definition warmedUp :: Hook where
  "warmedUp = runFrame 1 debugStore loud listening"

definition quietFrame :: Frame where
  "quietFrame = \<lparr>delta = 0.016, voice = EMPTY_VOICE_DATA, store = debugStore,
     meshMounted = True, hits = [], worldToLocal = (\<lambda>p. p), levelsElement = True\<rparr>"

definition loudFrame :: Frame where
  "loudFrame = \<lparr>delta = 0.016,
     voice = \<lparr>amplitude = 1, lowEnergy = 1, midEnergy = 0.5, highEnergy = 0.25\<rparr>,
     store = debugStore, meshMounted = True, hits = [], worldToLocal = (\<lambda>p. p),
     levelsElement = True\<rparr>"



section \<open>Properties of the signal analyser\<close>

subsection \<open>The VoiceData invariant\<close>

lemma requestAnimationFrame_voiceData [simp]:
  "voiceData (requestAnimationFrame s) = voiceData s"
  by (simp add: requestAnimationFrame_def)

lemma bandStep_range: "0 \<le> bandStep t c" "bandStep t c \<le> 1"
  by (simp_all add: bandStep_def orZero_def)

lemma smoothBands_fields:
  "lowEnergy (smoothBands k raw v) = bandStep (min 1 (fst raw * k * 1.0)) (lowEnergy v)"
  "midEnergy (smoothBands k raw v) = bandStep (min 1 (fst (snd raw) * k * 1.2)) (midEnergy v)"
  "highEnergy (smoothBands k raw v) = bandStep (min 1 (snd (snd raw) * k * 0.8)) (highEnergy v)"
  "amplitude (smoothBands k raw v) =
     max (bandStep (min 1 (fst raw * k * 1.0)) (lowEnergy v))
       (max (bandStep (min 1 (fst (snd raw) * k * 1.2)) (midEnergy v))
            (bandStep (min 1 (snd (snd raw) * k * 0.8)) (highEnergy v)))"
  unfolding smoothBands_def Let_def bandStep_def by (cases v, simp only: VoiceData.simps)+

lemma smoothBands_invariant: "voiceInvariant (smoothBands k raw v)"
  unfolding voiceInvariant_def smoothBands_fields
  by (simp add: bandStep_range le_max_iff_disj)

lemma muteFade_fields:
  "amplitude (muteFade v) = amplitude v * 0.9"
  "lowEnergy (muteFade v) = lowEnergy v * 0.9"
  "midEnergy (muteFade v) = midEnergy v * 0.9"
  "highEnergy (muteFade v) = highEnergy v * 0.9"
  unfolding muteFade_def by (cases v, simp only: VoiceData.simps)+

lemma muteFade_invariant:
  assumes "voiceInvariant v"
  shows "voiceInvariant (muteFade v)"
proof -
  have "max (lowEnergy v) (max (midEnergy v) (highEnergy v)) * 0.9 =
        max (lowEnergy v * 0.9) (max (midEnergy v * 0.9) (highEnergy v * 0.9))"
    by (simp add: max_mult_distrib_right)
  then show ?thesis
    using assms unfolding voiceInvariant_def muteFade_fields by simp
qed

lemma analyse_idle:
  "analyserRef s = None \<or> audioContextRef s = None \<Longrightarrow> analyse st spectrum s = s"
  by (auto simp: analyse_def split: option.splits)

lemma analyse_mute_voiceData:
  assumes "analyserRef s \<noteq> None" "audioContextRef s \<noteq> None" "isMuted st"
  shows "voiceData (analyse st spectrum s) = muteFade (voiceData s)"
  using assms by (auto simp: analyse_def)

lemma analyse_normal_voiceData:
  assumes "analyserRef s = Some a" "audioContextRef s \<noteq> None" "\<not> isMuted st"
  shows "voiceData (analyse st spectrum s) =
           smoothBands (sensitivity st)
             (gatedBands (noiseGate st)
                (getByteFrequencyData spectrum
                   (case frequencyDataRef s of None \<Rightarrow> replicate (frequencyBinCount a) 0
                    | Some fd \<Rightarrow> fd))
                (frequencyBinCount a))
             (voiceData s)"
  using assms by (auto simp: analyse_def Let_def)

lemma analyse_invariant:
  assumes "voiceInvariant (voiceData s)"
  shows "voiceInvariant (voiceData (analyse st spectrum s))"
proof (cases "analyserRef s = None \<or> audioContextRef s = None")
  case True
  then show ?thesis using assms by (simp add: analyse_idle)
next
  case False
  then obtain a where a: "analyserRef s = Some a" and c: "audioContextRef s \<noteq> None"
    by auto
  show ?thesis
  proof (cases "isMuted st")
    case True
    then show ?thesis
      using a c assms by (simp add: analyse_mute_voiceData muteFade_invariant)
  next
    case False
    then show ?thesis
      using a c by (simp add: analyse_normal_voiceData smoothBands_invariant)
  qed
qed

lemma stopStream_voiceData [simp]: "voiceData (stopStream s) = voiceData s"
  by (simp add: stopStream_def stopTracks_def split: option.splits)

lemma cancelFrame_voiceData [simp]: "voiceData (cancelFrame s) = voiceData s"
  by (simp add: cancelFrame_def cancelAnimationFrame_def)

lemma startReset_voiceData: "voiceData (startReset s) = EMPTY_VOICE_DATA"
  by (simp add: startReset_def)

lemma startConnect_voiceData: "voiceData (snd (startConnect p stream s)) = voiceData s"
  by (simp add: startConnect_def Let_def connectSource_def resumeContext_def ensureContext_def
      describeStream_def loadMicrophones_def adoptStream_def split: sum.splits)

lemma startListening_voiceData:
  "voiceData (snd (startListening p dev s)) = EMPTY_VOICE_DATA"
  by (simp add: startListening_def Let_def startReset_voiceData startConnect_voiceData
      split: sum.splits)

lemma stopListening_voiceData: "voiceData (stopListening s) = EMPTY_VOICE_DATA"
  by (simp add: stopListening_def)

lemma empty_invariant: "voiceInvariant EMPTY_VOICE_DATA"
  by (simp add: voiceInvariant_def EMPTY_VOICE_DATA_def)

lemma reachable_voiceInvariant: "reachable s \<Longrightarrow> voiceInvariant (voiceData s)"
proof (induction rule: reachable.induct)
  case reachable_init
  show ?case by (simp add: initialHook_def empty_invariant)
next
  case (reachable_start s p dev)
  show ?case by (simp add: startListening_voiceData empty_invariant)
next
  case (reachable_stop s)
  show ?case by (simp add: stopListening_voiceData empty_invariant)
next
  case (reachable_frame s h st spectrum)
  have "voiceInvariant (voiceData (s\<lparr>pendingFrames := pendingFrames s - {h}\<rparr>))"
    using reachable_frame.IH by simp
  then show ?case
    using reachable_frame.IH analyse_invariant by (simp add: runFrame_def)
qed

text \<open>
  Claim C1. In every state the hook can reach, an analysis tick, on its normal path and on
  its mute path alike and whatever the parameter store and the spectrum hold, leaves
  \<open>lowEnergy\<close>, \<open>midEnergy\<close>, \<open>highEnergy\<close> and \<open>amplitude\<close> in \<open>[0, 1]\<close> with \<open>amplitude\<close>
  exactly the maximum of the three band energies. A NaN band average counts as \<open>0\<close>.
\<close>

theorem analyse_keeps_voice_invariant:
  assumes "reachable s"
  shows "voiceInvariant (voiceData (analyse st spectrum s))"
  using assms by (simp add: reachable_voiceInvariant analyse_invariant)

theorem analyse_keeps_voice_invariant_witness:
  "reachable listening \<and> voiceInvariant (voiceData (analyse debugStore loud listening))"
proof -
  have r: "reachable listening"
    unfolding listening_def by (rule reachable_start [OF reachable_init])
  show ?thesis
    using r analyse_keeps_voice_invariant [OF r, of debugStore loud] by simp
qed

subsection \<open>The noise gate\<close>

lemma noiseGated_mono:
  assumes "r \<le> 1" "g1 \<le> g2" "g2 < 1"
  shows "noiseGated (Some r) g2 \<le> noiseGated (Some r) g1"
proof -
  have d1: "0 < 1 - g1" and d2: "0 < 1 - g2" using assms by auto
  show ?thesis
  proof (cases "r > g2")
    case True
    then have r1: "r > g1" using assms by auto
    have "(r - g2) * (1 - g1) \<le> (r - g1) * (1 - g2)"
    proof -
      have "(r - g1) * (1 - g2) - (r - g2) * (1 - g1) = (1 - r) * (g2 - g1)"
        by (simp add: algebra_simps)
      moreover have "0 \<le> (1 - r) * (g2 - g1)" using assms by simp
      ultimately show ?thesis by linarith
    qed
    then have "(r - g2) / (1 - g2) \<le> (r - g1) / (1 - g1)"
      using d1 d2 by (simp add: divide_simps mult.commute)
    then show ?thesis using True r1 by (simp add: noiseGated_def)
  next
    case False
    then show ?thesis using d1 by (simp add: noiseGated_def)
  qed
qed

text \<open>
  Claim C3. The gate of each of the three bands of a tick is
  \<open>raw > gate ? (raw - gate) / (1 - gate) : 0\<close>, applied to the band's average. For a raw
  value \<open>r\<close> in \<open>[0, 1]\<close> and gates \<open>g1 \<le> g2\<close> in \<open>[0, 0.3]\<close> the output at \<open>g2\<close> is at most the
  output at \<open>g1\<close>, and the output is exactly \<open>0\<close> whenever the raw value is at most the gate.
\<close>

theorem noise_gate_monotone:
  assumes "0 \<le> r" "r \<le> 1" "0 \<le> g1" "g1 \<le> g2" "g2 \<le> 0.3" "r' \<le> g'"
  shows "gatedBands g fd n =
           (noiseGated (map_option (\<lambda>x. x / (6 * 255)) (bandSum fd 0 6)) g,
            noiseGated (map_option (\<lambda>x. x / (44 * 255)) (bandSum fd 6 50)) g,
            noiseGated (highAverage (bandSum fd 50 n) n) g)
         \<and> noiseGated (Some r) g1 = (if r > g1 then (r - g1) / (1 - g1) else 0)
         \<and> noiseGated (Some r) g2 \<le> noiseGated (Some r) g1
         \<and> noiseGated (Some r') g' = 0"
proof -
  have "noiseGated (Some r) g2 \<le> noiseGated (Some r) g1"
    using assms by (intro noiseGated_mono) auto
  moreover have "noiseGated (Some r') g' = 0"
    using assms by (simp add: noiseGated_def)
  moreover have "gatedBands g fd n =
           (noiseGated (map_option (\<lambda>x. x / (6 * 255)) (bandSum fd 0 6)) g,
            noiseGated (map_option (\<lambda>x. x / (44 * 255)) (bandSum fd 6 50)) g,
            noiseGated (highAverage (bandSum fd 50 n) n) g)"
    unfolding gatedBands_def Let_def ..
  ultimately show ?thesis by (simp add: noiseGated_def)
qed

theorem noise_gate_monotone_witness:
  "noiseGated (Some 0.5) 0.2 \<le> noiseGated (Some 0.5) 0.1
   \<and> noiseGated (Some 0.5) 0.1 = 4 / 9 \<and> noiseGated (Some 0.05) 0.1 = 0"
  using noise_gate_monotone [of "0.5" "0.1" "0.2" "0.05" "0.1"] by simp

subsection \<open>The raw band averages lie in the unit interval\<close>

lemma byteAt_range: "byteAt fd i = Some x \<Longrightarrow> 0 \<le> x \<and> x \<le> 255"
proof -
  assume a: "byteAt fd i = Some x"
  have "unat (fd ! i) < 2 ^ 8"
    using unsigned_less [of "fd ! i", where 'a = nat] by simp
  then have "unat (fd ! i) \<le> 255" by simp
  then have "real (unat (fd ! i)) \<le> real 255" by (rule of_nat_mono)
  then have "real (unat (fd ! i)) \<le> 255" by simp
  moreover have "0 \<le> real (unat (fd ! i))" by (rule of_nat_0_le_iff)
  ultimately show ?thesis using a by (auto simp: byteAt_def split: if_splits)
qed

lemma fold_bytes_range:
  assumes "fold (\<lambda>i acc. nanAdd acc (byteAt fd i)) xs (Some a) = Some x"
  shows "a \<le> x \<and> x \<le> a + 255 * real (length xs)"
  using assms
proof (induction xs arbitrary: a)
  case Nil
  then show ?case by simp
next
  case (Cons i xs)
  show ?case
  proof (cases "byteAt fd i")
    case None
    have "fold (\<lambda>i acc. nanAdd acc (byteAt fd i)) xs None = None"
      by (induction xs) (simp_all add: nanAdd_def)
    then show ?thesis using Cons.prems None by (simp add: nanAdd_def)
  next
    case (Some y)
    then have "fold (\<lambda>i acc. nanAdd acc (byteAt fd i)) xs (Some (a + y)) = Some x"
      using Cons.prems by (simp add: nanAdd_def)
    from Cons.IH [OF this] byteAt_range [OF Some] show ?thesis
      by (simp add: algebra_simps)
  qed
qed

lemma bandSum_range:
  assumes "bandSum fd lo hi = Some x"
  shows "0 \<le> x" "x \<le> 255 * real (hi - lo)"
  using fold_bytes_range [of fd "[lo..<hi]" 0 x] assms by (simp_all add: bandSum_def)

lemma raw_bands_range:
  "map_option (\<lambda>x. x / (6 * 255)) (bandSum fd 0 6) = Some r \<Longrightarrow> 0 \<le> r \<and> r \<le> 1"
  "map_option (\<lambda>x. x / (44 * 255)) (bandSum fd 6 50) = Some r \<Longrightarrow> 0 \<le> r \<and> r \<le> 1"
  "highAverage (bandSum fd 50 n) n = Some r \<Longrightarrow> 0 \<le> r \<and> r \<le> 1"
proof -
  show "map_option (\<lambda>x. x / (6 * 255)) (bandSum fd 0 6) = Some r \<Longrightarrow> 0 \<le> r \<and> r \<le> 1"
    using bandSum_range [of fd 0 6] by auto
  show "map_option (\<lambda>x. x / (44 * 255)) (bandSum fd 6 50) = Some r \<Longrightarrow> 0 \<le> r \<and> r \<le> 1"
    using bandSum_range [of fd 6 50] by auto
  show "highAverage (bandSum fd 50 n) n = Some r \<Longrightarrow> 0 \<le> r \<and> r \<le> 1"
  proof -
    assume h: "highAverage (bandSum fd 50 n) n = Some r"
    then obtain x where x: "bandSum fd 50 n = Some x" and n: "n \<noteq> 50"
      and r: "r = x / ((real n - 50) * 255)"
      by (auto simp: highAverage_def split: option.splits if_splits)
    note b = bandSum_range [OF x]
    show ?thesis
    proof (cases "n < 50")
      case True
      then have "x = 0" using b by simp
      then show ?thesis using r by simp
    next
      case False
      then have p: "0 < (real n - 50) * 255" and e: "real (n - 50) = real n - 50"
        using n by simp_all
      have "x \<le> (real n - 50) * 255" using b(2) e by (simp add: mult.commute)
      then show ?thesis using b(1) p r by (simp add: divide_le_eq)
    qed
  qed
qed

text \<open>In the gate the division is by a positive number whenever it is taken for such a raw
  value and a gate below \<open>1\<close>, and the gated value is in the unit interval again.\<close>

lemma noiseGated_range:
  assumes "0 \<le> r" "r \<le> 1" "0 \<le> g" "g < 1"
  shows "0 \<le> noiseGated (Some r) g" "noiseGated (Some r) g \<le> 1"
  using assms by (simp_all add: noiseGated_def divide_le_eq)

subsection \<open>The analyser node and the byte array in reachable states\<close>

lemma frequencyBinCount_newAnalyser: "frequencyBinCount newAnalyser = 128"
  by (simp add: frequencyBinCount_def newAnalyser_def)

lemma length_getByteFrequencyData [simp]:
  "length (getByteFrequencyData spectrum fd) = length fd"
  by (simp add: getByteFrequencyData_def)

lemma getByteFrequencyData_same_length:
  "length spectrum = length fd \<Longrightarrow> getByteFrequencyData spectrum fd = spectrum"
  by (simp add: getByteFrequencyData_def)

lemma analyse_refs:
  "analyserRef (analyse st spectrum s) = analyserRef s"
  "audioContextRef (analyse st spectrum s) = audioContextRef s"
  by (auto simp: analyse_def Let_def requestAnimationFrame_def split: option.splits)

lemma analyse_hookInvariant:
  assumes "hookInvariant s"
  shows "hookInvariant (analyse st spectrum s)"
proof -
  have "case frequencyDataRef (analyse st spectrum s) of None \<Rightarrow> True
        | Some fd \<Rightarrow> length fd = 128"
    using assms
    by (auto simp: analyse_def Let_def requestAnimationFrame_def hookInvariant_def
        frequencyBinCount_newAnalyser split: option.splits)
  then show ?thesis
    using assms by (simp add: hookInvariant_def analyse_refs)
qed

lemma startReset_refs:
  "analyserRef (startReset s) = analyserRef s"
  "audioContextRef (startReset s) = audioContextRef s"
  "frequencyDataRef (startReset s) = frequencyDataRef s"
  by (simp_all add: startReset_def cancelFrame_def cancelAnimationFrame_def stopStream_def
      stopTracks_def split: option.splits)

lemma startConnect_hookInvariant:
  assumes "hookInvariant s"
  shows "hookInvariant (snd (startConnect p stream s))"
  using assms
  by (auto simp: startConnect_def Let_def hookInvariant_def requestAnimationFrame_def
      connectSource_def resumeContext_def ensureContext_def describeStream_def
      loadMicrophones_def adoptStream_def split: sum.splits option.splits)

lemma startListening_hookInvariant:
  assumes "hookInvariant s"
  shows "hookInvariant (snd (startListening p dev s))"
proof -
  have "hookInvariant (startReset s)"
    using assms by (simp add: hookInvariant_def startReset_refs)
  then show ?thesis
    by (simp add: startListening_def Let_def startConnect_hookInvariant split: sum.splits)
qed

lemma stopListening_hookInvariant: "hookInvariant (stopListening s)"
  by (simp add: stopListening_def hookInvariant_def)

lemma reachable_hookInvariant: "reachable s \<Longrightarrow> hookInvariant s"
proof (induction rule: reachable.induct)
  case reachable_init
  show ?case by (simp add: initialHook_def hookInvariant_def)
next
  case (reachable_start s p dev)
  then show ?case by (simp add: startListening_hookInvariant)
next
  case (reachable_stop s)
  show ?case by (simp add: stopListening_hookInvariant)
next
  case (reachable_frame s h st spectrum)
  have "hookInvariant (s\<lparr>pendingFrames := pendingFrames s - {h}\<rparr>)"
    using reachable_frame.IH by (simp add: hookInvariant_def)
  then show ?case
    using reachable_frame.IH by (simp add: runFrame_def analyse_hookInvariant)
qed

subsection \<open>Sequences of ticks and the mute fade\<close>

lemma ticks_refs:
  "analyserRef (ticks env n s) = analyserRef s"
  "audioContextRef (ticks env n s) = audioContextRef s"
  by (induction n) (simp_all add: analyse_refs)

lemma ticks_hookInvariant: "hookInvariant s \<Longrightarrow> hookInvariant (ticks env n s)"
  by (induction n) (simp_all add: analyse_hookInvariant)

lemma ticks_voiceInvariant:
  "voiceInvariant (voiceData s) \<Longrightarrow> voiceInvariant (voiceData (ticks env n s))"
  by (induction n) (simp_all add: analyse_invariant)

lemma analyse_mute_frequencyData:
  assumes "isMuted st"
  shows "frequencyDataRef (analyse st spectrum s) = frequencyDataRef s"
  using assms by (auto simp: analyse_def requestAnimationFrame_def split: option.splits)

lemma mute_ticks_fields:
  assumes "analyserRef s \<noteq> None" "audioContextRef s \<noteq> None" "\<forall>k. isMuted (fst (env k))"
  shows "amplitude (voiceData (ticks env n s)) = amplitude (voiceData s) * 0.9 ^ n"
    and "lowEnergy (voiceData (ticks env n s)) = lowEnergy (voiceData s) * 0.9 ^ n"
    and "midEnergy (voiceData (ticks env n s)) = midEnergy (voiceData s) * 0.9 ^ n"
    and "highEnergy (voiceData (ticks env n s)) = highEnergy (voiceData s) * 0.9 ^ n"
    and "frequencyDataRef (ticks env n s) = frequencyDataRef s"
  using assms
  by (induction n)
    (simp_all add: analyse_mute_voiceData ticks_refs muteFade_fields analyse_mute_frequencyData)

lemma fade_to_zero: "(\<lambda>n. x * (0.9::real) ^ n) \<longlonglongrightarrow> 0"
proof -
  have "(\<lambda>n. (0.9::real) ^ n) \<longlonglongrightarrow> 0"
    by (rule LIMSEQ_realpow_zero) simp_all
  then have "(\<lambda>n. x * (0.9::real) ^ n) \<longlonglongrightarrow> x * 0"
    by (rule tendsto_mult_left)
  then show ?thesis by simp
qed

text \<open>
  Claim C5. While the store is muted, a tick of a running analyser does no spectrum analysis
  (the byte array is left as it is and the spectrum is not read) and multiplies each of the
  four fields by \<open>0.9\<close>. So after \<open>n\<close> muted ticks each field is its initial value times
  \<open>0.9 ^ n\<close>; from positive fields every field stays positive, and tends to \<open>0\<close>.
\<close>

theorem mute_fade:
  assumes "analyserRef s \<noteq> None" "audioContextRef s \<noteq> None"
    and "\<forall>k. isMuted (fst (env k))"
    and "0 < amplitude (voiceData s)" "0 < lowEnergy (voiceData s)"
        "0 < midEnergy (voiceData s)" "0 < highEnergy (voiceData s)"
  shows "voiceData (ticks env n s) =
           \<lparr>amplitude = amplitude (voiceData s) * 0.9 ^ n,
            lowEnergy = lowEnergy (voiceData s) * 0.9 ^ n,
            midEnergy = midEnergy (voiceData s) * 0.9 ^ n,
            highEnergy = highEnergy (voiceData s) * 0.9 ^ n\<rparr>
         \<and> frequencyDataRef (ticks env n s) = frequencyDataRef s
         \<and> 0 < amplitude (voiceData (ticks env n s)) \<and> 0 < lowEnergy (voiceData (ticks env n s))
         \<and> 0 < midEnergy (voiceData (ticks env n s)) \<and> 0 < highEnergy (voiceData (ticks env n s))
         \<and> (\<lambda>n. amplitude (voiceData (ticks env n s))) \<longlonglongrightarrow> 0
         \<and> (\<lambda>n. lowEnergy (voiceData (ticks env n s))) \<longlonglongrightarrow> 0
         \<and> (\<lambda>n. midEnergy (voiceData (ticks env n s))) \<longlonglongrightarrow> 0
         \<and> (\<lambda>n. highEnergy (voiceData (ticks env n s))) \<longlonglongrightarrow> 0"
proof -
  note f = mute_ticks_fields [OF assms(1-3)]
  have rec: "voiceData (ticks env n s) =
           \<lparr>amplitude = amplitude (voiceData s) * 0.9 ^ n,
            lowEnergy = lowEnergy (voiceData s) * 0.9 ^ n,
            midEnergy = midEnergy (voiceData s) * 0.9 ^ n,
            highEnergy = highEnergy (voiceData s) * 0.9 ^ n\<rparr>"
    by (rule VoiceData.equality) (simp_all add: f)
  have pos: "0 < amplitude (voiceData (ticks env n s))" "0 < lowEnergy (voiceData (ticks env n s))"
     "0 < midEnergy (voiceData (ticks env n s))" "0 < highEnergy (voiceData (ticks env n s))"
    using assms(4-7) by (simp_all add: f)
  have lim: "(\<lambda>n. amplitude (voiceData (ticks env n s))) \<longlonglongrightarrow> 0"
      "(\<lambda>n. lowEnergy (voiceData (ticks env n s))) \<longlonglongrightarrow> 0"
      "(\<lambda>n. midEnergy (voiceData (ticks env n s))) \<longlonglongrightarrow> 0"
      "(\<lambda>n. highEnergy (voiceData (ticks env n s))) \<longlonglongrightarrow> 0"
    by (simp_all add: f fade_to_zero)
  show ?thesis using rec pos lim f(5) by blast
qed

theorem mute_fade_witness:
  "voiceData (ticks (\<lambda>k. (mutedStore, loud)) 2 fadingSession) =
     \<lparr>amplitude = 0.81, lowEnergy = 0.81, midEnergy = 0.405, highEnergy = 0.2025\<rparr>"
proof -
  have "analyserRef fadingSession \<noteq> None" "audioContextRef fadingSession \<noteq> None"
    "\<forall>k. isMuted (fst ((\<lambda>k. (mutedStore, loud)) k))"
    "0 < amplitude (voiceData fadingSession)" "0 < lowEnergy (voiceData fadingSession)"
    "0 < midEnergy (voiceData fadingSession)" "0 < highEnergy (voiceData fadingSession)"
    by (simp_all add: fadingSession_def mutedStore_def debugStore_def)
  from mute_fade [OF this, of 2] show ?thesis
    by (simp add: fadingSession_def power2_eq_square)
qed

subsection \<open>Band sums, and ticks on a full-scale and on a silent spectrum\<close>

lemma fold_bytes:
  assumes "\<forall>i\<in>set xs. i < length fd"
  shows "fold (\<lambda>i acc. nanAdd acc (byteAt fd i)) xs (Some a) =
           Some (a + (\<Sum>i\<leftarrow>xs. real (unat (fd ! i))))"
  using assms
proof (induction xs arbitrary: a)
  case Nil
  show ?case by simp
next
  case (Cons x xs)
  have "nanAdd (Some a) (byteAt fd x) = Some (a + real (unat (fd ! x)))"
    using Cons.prems by (simp add: nanAdd_def byteAt_def)
  then show ?case
    using Cons.IH [of "a + real (unat (fd ! x))"] Cons.prems by (simp add: add.assoc)
qed

lemma bandSum_in_range:
  assumes "hi \<le> length fd"
  shows "bandSum fd lo hi = Some (\<Sum>i\<leftarrow>[lo..<hi]. real (unat (fd ! i)))"
  using assms fold_bytes [of "[lo..<hi]" fd 0] by (simp add: bandSum_def)

lemma bandSum_constant:
  assumes "hi \<le> n"
  shows "bandSum (replicate n c) lo hi = Some (real (hi - lo) * real (unat c))"
proof -
  have "(\<Sum>i\<leftarrow>[lo..<hi]. real (unat (replicate n c ! i))) = (\<Sum>i\<leftarrow>[lo..<hi]. real (unat c))"
    using assms by (intro arg_cong [where f = sum_list] map_cong) auto
  then show ?thesis
    using assms by (simp add: bandSum_in_range sum_list_triv)
qed

lemma gatedBands_loud:
  assumes "g < 1"
  shows "gatedBands g loud 128 = (1, 1, 1)"
  using assms
  by (simp add: gatedBands_def loud_def bandSum_constant highAverage_def noiseGated_def)

lemma gatedBands_silent:
  assumes "0 \<le> g"
  shows "gatedBands g silent 128 = (0, 0, 0)"
  using assms
  by (simp add: gatedBands_def silent_def bandSum_constant highAverage_def noiseGated_def)

lemma analyse_normal_reachable:
  assumes "hookInvariant s" "analyserRef s \<noteq> None" "\<not> isMuted st" "length spectrum = 128"
  shows "voiceData (analyse st spectrum s) =
           smoothBands (sensitivity st) (gatedBands (noiseGate st) spectrum 128) (voiceData s)"
proof -
  have a: "analyserRef s = Some newAnalyser" and c: "audioContextRef s \<noteq> None"
    using assms(1,2) by (auto simp: hookInvariant_def)
  have "length (case frequencyDataRef s of None \<Rightarrow> replicate (frequencyBinCount newAnalyser) 0
                | Some fd \<Rightarrow> fd) = 128"
    using assms(1)
    by (auto simp: hookInvariant_def frequencyBinCount_newAnalyser split: option.splits)
  then have "getByteFrequencyData spectrum
               (case frequencyDataRef s of None \<Rightarrow> replicate (frequencyBinCount newAnalyser) 0
                | Some fd \<Rightarrow> fd) = spectrum"
    using assms(4) by (simp add: getByteFrequencyData_same_length)
  then show ?thesis
    using analyse_normal_voiceData [OF a c assms(3), of spectrum]
    by (simp add: frequencyBinCount_newAnalyser)
qed

lemma follow_range:
  assumes "0 \<le> c" "c \<le> 1" "t \<le> 1"
  shows "0 \<le> follow t c" "follow t c \<le> 1"
proof -
  have "t > c \<Longrightarrow> c + (t - c) * attack \<le> 1"
  proof -
    assume "t > c"
    then have "(t - c) * attack \<le> (t - c) * 1"
      by (intro mult_left_mono) (simp_all add: attack_def)
    then show ?thesis using assms by simp
  qed
  moreover have "t > c \<Longrightarrow> 0 \<le> c + (t - c) * attack"
    using assms by (simp add: attack_def)
  moreover have "0 \<le> c * release" "c * release \<le> 1"
    using assms by (simp_all add: release_def mult_le_one)
  ultimately show "0 \<le> follow t c" "follow t c \<le> 1"
    by (auto simp: follow_def)
qed

lemma bandStep_follow:
  assumes "0 \<le> c" "c \<le> 1" "t \<le> 1"
  shows "bandStep t c = follow t c"
  using follow_range [OF assms] by (simp add: bandStep_def orZero_def)

lemma follow_rise: "c < 1 \<Longrightarrow> follow 1 c = c + attack * (1 - c)"
  by (simp add: follow_def)

lemma follow_decay: "0 \<le> c \<Longrightarrow> follow 0 c = c * release"
  by (simp add: follow_def)

lemma tick_follows:
  assumes "hookInvariant s" "voiceInvariant (voiceData s)" "analyserRef s \<noteq> None"
    and "\<not> isMuted st" "length spectrum = 128"
  shows "lowEnergy (voiceData (analyse st spectrum s)) =
           follow (min 1 (fst (gatedBands (noiseGate st) spectrum 128) * sensitivity st * 1.0))
             (lowEnergy (voiceData s))"
    and "midEnergy (voiceData (analyse st spectrum s)) =
           follow (min 1 (fst (snd (gatedBands (noiseGate st) spectrum 128)) * sensitivity st * 1.2))
             (midEnergy (voiceData s))"
    and "highEnergy (voiceData (analyse st spectrum s)) =
           follow (min 1 (snd (snd (gatedBands (noiseGate st) spectrum 128)) * sensitivity st * 0.8))
             (highEnergy (voiceData s))"
    and "amplitude (voiceData (analyse st spectrum s)) =
           max (lowEnergy (voiceData (analyse st spectrum s)))
             (max (midEnergy (voiceData (analyse st spectrum s)))
                  (highEnergy (voiceData (analyse st spectrum s))))"
proof -
  note v = analyse_normal_reachable [OF assms(1,3,4,5)]
  have r: "0 \<le> lowEnergy (voiceData s)" "lowEnergy (voiceData s) \<le> 1"
    "0 \<le> midEnergy (voiceData s)" "midEnergy (voiceData s) \<le> 1"
    "0 \<le> highEnergy (voiceData s)" "highEnergy (voiceData s) \<le> 1"
    using assms(2) by (simp_all add: voiceInvariant_def)
  show "lowEnergy (voiceData (analyse st spectrum s)) =
           follow (min 1 (fst (gatedBands (noiseGate st) spectrum 128) * sensitivity st * 1.0))
             (lowEnergy (voiceData s))"
    unfolding v smoothBands_fields by (rule bandStep_follow) (simp_all add: r)
  show "midEnergy (voiceData (analyse st spectrum s)) =
           follow (min 1 (fst (snd (gatedBands (noiseGate st) spectrum 128)) * sensitivity st * 1.2))
             (midEnergy (voiceData s))"
    unfolding v smoothBands_fields by (rule bandStep_follow) (simp_all add: r)
  show "highEnergy (voiceData (analyse st spectrum s)) =
           follow (min 1 (snd (snd (gatedBands (noiseGate st) spectrum 128)) * sensitivity st * 0.8))
             (highEnergy (voiceData s))"
    unfolding v smoothBands_fields by (rule bandStep_follow) (simp_all add: r)
  show "amplitude (voiceData (analyse st spectrum s)) =
           max (lowEnergy (voiceData (analyse st spectrum s)))
             (max (midEnergy (voiceData (analyse st spectrum s)))
                  (highEnergy (voiceData (analyse st spectrum s))))"
    unfolding v smoothBands_fields ..
qed

lemma loud_tick:
  assumes "hookInvariant s" "voiceInvariant (voiceData s)" "analyserRef s \<noteq> None"
    and "\<not> isMuted st" "noiseGate st < 1" "1.25 \<le> sensitivity st"
  shows "lowEnergy (voiceData (analyse st loud s)) = follow 1 (lowEnergy (voiceData s))"
    and "midEnergy (voiceData (analyse st loud s)) = follow 1 (midEnergy (voiceData s))"
    and "highEnergy (voiceData (analyse st loud s)) = follow 1 (highEnergy (voiceData s))"
proof -
  have l: "length loud = 128" by (simp add: loud_def)
  have t: "min 1 (sensitivity st) = 1" "min 1 (sensitivity st * 6 / 5) = 1"
    "min 1 (sensitivity st * 4 / 5) = 1"
    using assms(6) by simp_all
  show "lowEnergy (voiceData (analyse st loud s)) = follow 1 (lowEnergy (voiceData s))"
    and "midEnergy (voiceData (analyse st loud s)) = follow 1 (midEnergy (voiceData s))"
    and "highEnergy (voiceData (analyse st loud s)) = follow 1 (highEnergy (voiceData s))"
    using tick_follows(1-3) [OF assms(1-4) l] by (simp_all add: gatedBands_loud [OF assms(5)] t)
qed

lemma silent_tick:
  assumes "hookInvariant s" "voiceInvariant (voiceData s)" "analyserRef s \<noteq> None"
    and "\<not> isMuted st" "0 \<le> noiseGate st"
  shows "lowEnergy (voiceData (analyse st silent s)) = follow 0 (lowEnergy (voiceData s))"
    and "midEnergy (voiceData (analyse st silent s)) = follow 0 (midEnergy (voiceData s))"
    and "highEnergy (voiceData (analyse st silent s)) = follow 0 (highEnergy (voiceData s))"
proof -
  have l: "length silent = 128" by (simp add: silent_def)
  show "lowEnergy (voiceData (analyse st silent s)) = follow 0 (lowEnergy (voiceData s))"
    and "midEnergy (voiceData (analyse st silent s)) = follow 0 (midEnergy (voiceData s))"
    and "highEnergy (voiceData (analyse st silent s)) = follow 0 (highEnergy (voiceData s))"
    using tick_follows(1-3) [OF assms(1-4) l] by (simp_all add: gatedBands_silent [OF assms(5)])
qed

lemma rise_closed_form:
  assumes "hookInvariant s" "analyserRef s \<noteq> None" "voiceData s = EMPTY_VOICE_DATA"
    and "\<forall>k. \<not> isMuted (fst (env k)) \<and> noiseGate (fst (env k)) < 1
             \<and> 1.25 \<le> sensitivity (fst (env k)) \<and> snd (env k) = loud"
  shows "lowEnergy (voiceData (ticks env n s)) = 1 - (1 - attack) ^ n
       \<and> midEnergy (voiceData (ticks env n s)) = 1 - (1 - attack) ^ n
       \<and> highEnergy (voiceData (ticks env n s)) = 1 - (1 - attack) ^ n"
proof (induction n)
  case 0
  show ?case using assms(3) by (simp add: EMPTY_VOICE_DATA_def)
next
  case (Suc n)
  let ?s = "ticks env n s"
  have h: "hookInvariant ?s" "voiceInvariant (voiceData ?s)" "analyserRef ?s \<noteq> None"
    using assms(1-3) by (simp_all add: ticks_hookInvariant ticks_voiceInvariant ticks_refs
        empty_invariant)
  have e: "\<not> isMuted (fst (env n))" "noiseGate (fst (env n)) < 1"
    "1.25 \<le> sensitivity (fst (env n))" "snd (env n) = loud"
    using assms(4) by simp_all
  have p: "0 < (1 - attack) ^ n" by (simp add: attack_def)
  have "follow 1 (1 - (1 - attack) ^ n) = 1 - (1 - attack) ^ Suc n"
    using p by (simp add: follow_rise algebra_simps)
  then show ?case
    using loud_tick [OF h e(1-3)] Suc.IH e(4) by simp
qed

lemma decay_closed_form:
  assumes "hookInvariant s" "voiceInvariant (voiceData s)" "analyserRef s \<noteq> None"
    and "\<forall>k. \<not> isMuted (fst (env k)) \<and> 0 \<le> noiseGate (fst (env k)) \<and> snd (env k) = silent"
  shows "lowEnergy (voiceData (ticks env n s)) = lowEnergy (voiceData s) * release ^ n
       \<and> midEnergy (voiceData (ticks env n s)) = midEnergy (voiceData s) * release ^ n
       \<and> highEnergy (voiceData (ticks env n s)) = highEnergy (voiceData s) * release ^ n"
proof (induction n)
  case 0
  show ?case by simp
next
  case (Suc n)
  let ?s = "ticks env n s"
  have h: "hookInvariant ?s" "voiceInvariant (voiceData ?s)" "analyserRef ?s \<noteq> None"
    using assms(1-3) by (simp_all add: ticks_hookInvariant ticks_voiceInvariant ticks_refs)
  have e: "\<not> isMuted (fst (env n))" "0 \<le> noiseGate (fst (env n))" "snd (env n) = silent"
    using assms(4) by simp_all
  have r: "0 \<le> lowEnergy (voiceData ?s)" "0 \<le> midEnergy (voiceData ?s)"
    "0 \<le> highEnergy (voiceData ?s)"
    using h(2) by (simp_all add: voiceInvariant_def)
  show ?case
    using silent_tick [OF h e(1,2)] Suc.IH e(3) r by (simp add: follow_decay)
qed

subsection \<open>The envelope follower\<close>

lemma listening_facts:
  "analyserRef listening = Some newAnalyser"
  "audioContextRef listening = Some Running"
  "pendingFrames listening = {1}"
  "streamRef listening = Some 1"
  "liveStreams listening = {1}"
  "rafIdRef listening = 1"
  "isListening listening"
  by (simp_all add: listening_def startListening_def startReset_def cancelFrame_def
      stopStream_def initialHook_def grantingPlatform_def startConnect_def Let_def
      ensureContext_def describeStream_def loadMicrophones_def adoptStream_def
      connectSource_def resumeContext_def requestAnimationFrame_def)

lemma reachable_listening: "reachable listening"
  unfolding listening_def by (rule reachable_start [OF reachable_init])

lemma reachable_warmedUp: "reachable warmedUp"
  unfolding warmedUp_def by (rule reachable_frame [OF reachable_listening])

lemma warmedUp_voiceData:
  "voiceData warmedUp = \<lparr>amplitude = 0.025, lowEnergy = 0.025, midEnergy = 0.025,
                          highEnergy = 0.025\<rparr>"
proof -
  let ?s = "listening\<lparr>pendingFrames := pendingFrames listening - {1}\<rparr>"
  have w: "warmedUp = analyse debugStore loud ?s"
    by (simp add: warmedUp_def runFrame_def listening_facts)
  have h: "hookInvariant ?s" "voiceInvariant (voiceData ?s)" "analyserRef ?s \<noteq> None"
    using reachable_hookInvariant [OF reachable_listening]
      reachable_voiceInvariant [OF reachable_listening]
    by (simp_all add: hookInvariant_def listening_facts)
  have v: "voiceData ?s = EMPTY_VOICE_DATA"
    by (simp add: listening_def startListening_voiceData)
  have d: "\<not> isMuted debugStore" "noiseGate debugStore < 1" "1.25 \<le> sensitivity debugStore"
    by (simp_all add: debugStore_def)
  have l: "length loud = 128" by (simp add: loud_def)
  show ?thesis
    using loud_tick [OF h d] tick_follows(4) [OF h d(1) l] v
    by (intro VoiceData.equality) (simp_all add: w EMPTY_VOICE_DATA_def follow_def attack_def)
qed

lemma runFrame_analyserRef: "analyserRef (runFrame h st spectrum s) = analyserRef s"
  by (simp add: runFrame_def analyse_refs)

text \<open>
  Claim C4. The follower of each band has \<open>attack = 0.025\<close> and \<open>release = 0.992\<close>: in a
  running, unmuted analyser a tick sets each band to \<open>current + (target - current) * 0.025\<close>
  when its target is above the current value and to \<open>current * 0.992\<close> otherwise. With the
  target held at \<open>1\<close> from a zero record (a full-scale spectrum) the value after \<open>n\<close> ticks is
  \<open>1 - 0.975 ^ n\<close>: each tick adds \<open>attack * (1 - current)\<close>, a strict increase that stays
  below \<open>1\<close>. With the target held at \<open>0\<close> (a silent spectrum) each tick multiplies the value
  by \<open>release\<close>, so after \<open>n\<close> ticks it is the initial value times \<open>0.992 ^ n\<close>, and a positive
  value never becomes \<open>0\<close>.
\<close>

theorem envelope_follower:
  assumes run: "reachable s" "analyserRef s \<noteq> None"
    and tick: "\<not> isMuted st" "length spectrum = 128"
    and start: "reachable s0" "analyserRef s0 \<noteq> None" "voiceData s0 = EMPTY_VOICE_DATA"
    and rise: "\<forall>k. \<not> isMuted (fst (envL k)) \<and> noiseGate (fst (envL k)) < 1
                  \<and> 1.25 \<le> sensitivity (fst (envL k)) \<and> snd (envL k) = loud"
    and fall: "\<forall>k. \<not> isMuted (fst (envS k)) \<and> 0 \<le> noiseGate (fst (envS k))
                  \<and> snd (envS k) = silent"
    and pos: "0 < lowEnergy (voiceData s)" "0 < midEnergy (voiceData s)"
             "0 < highEnergy (voiceData s)"
  shows "attack = 0.025 \<and> release = 0.992
    \<and> follow t c = (if t > c then c + (t - c) * 0.025 else c * 0.992)
    \<and> lowEnergy (voiceData (analyse st spectrum s)) =
         follow (min 1 (fst (gatedBands (noiseGate st) spectrum 128) * sensitivity st * 1.0))
           (lowEnergy (voiceData s))
    \<and> midEnergy (voiceData (analyse st spectrum s)) =
         follow (min 1 (fst (snd (gatedBands (noiseGate st) spectrum 128)) * sensitivity st * 1.2))
           (midEnergy (voiceData s))
    \<and> highEnergy (voiceData (analyse st spectrum s)) =
         follow (min 1 (snd (snd (gatedBands (noiseGate st) spectrum 128)) * sensitivity st * 0.8))
           (highEnergy (voiceData s))
    \<and> voiceData (ticks envL n s0) =
         \<lparr>amplitude = 1 - 0.975 ^ n, lowEnergy = 1 - 0.975 ^ n,
          midEnergy = 1 - 0.975 ^ n, highEnergy = 1 - 0.975 ^ n\<rparr>
    \<and> lowEnergy (voiceData (ticks envL (Suc n) s0)) =
         lowEnergy (voiceData (ticks envL n s0))
         + attack * (1 - lowEnergy (voiceData (ticks envL n s0)))
    \<and> lowEnergy (voiceData (ticks envL n s0)) < lowEnergy (voiceData (ticks envL (Suc n) s0))
    \<and> lowEnergy (voiceData (ticks envL (Suc n) s0)) < 1
    \<and> voiceData (ticks envS n s) =
         \<lparr>amplitude = amplitude (voiceData s) * 0.992 ^ n,
          lowEnergy = lowEnergy (voiceData s) * 0.992 ^ n,
          midEnergy = midEnergy (voiceData s) * 0.992 ^ n,
          highEnergy = highEnergy (voiceData s) * 0.992 ^ n\<rparr>
    \<and> lowEnergy (voiceData (ticks envS (Suc n) s)) =
         release * lowEnergy (voiceData (ticks envS n s))
    \<and> 0 < lowEnergy (voiceData (ticks envS n s)) \<and> 0 < midEnergy (voiceData (ticks envS n s))
    \<and> 0 < highEnergy (voiceData (ticks envS n s))"
proof -
  note hs = reachable_hookInvariant [OF run(1)] reachable_voiceInvariant [OF run(1)] run(2)
  note h0 = reachable_hookInvariant [OF start(1)] start(2,3)
  have basics: "attack = 0.025 \<and> release = 0.992
      \<and> follow t c = (if t > c then c + (t - c) * 0.025 else c * 0.992)"
    by (simp add: attack_def release_def follow_def)
  note per_tick = tick_follows(1-3) [OF hs tick]
  have up: "lowEnergy (voiceData (ticks envL m s0)) = 1 - 0.975 ^ m"
    "midEnergy (voiceData (ticks envL m s0)) = 1 - 0.975 ^ m"
    "highEnergy (voiceData (ticks envL m s0)) = 1 - 0.975 ^ m" for m
    using rise_closed_form [OF h0 rise, of m] by (simp_all add: attack_def)
  have "voiceInvariant (voiceData (ticks envL n s0))"
    using start(3) by (simp add: ticks_voiceInvariant empty_invariant)
  then have "amplitude (voiceData (ticks envL n s0)) = 1 - 0.975 ^ n"
    by (simp add: voiceInvariant_def up)
  then have up_rec: "voiceData (ticks envL n s0) =
         \<lparr>amplitude = 1 - 0.975 ^ n, lowEnergy = 1 - 0.975 ^ n,
          midEnergy = 1 - 0.975 ^ n, highEnergy = 1 - 0.975 ^ n\<rparr>"
    by (intro VoiceData.equality) (simp_all add: up)
  have p: "(0::real) < 0.975 ^ n" by simp
  have up_step: "lowEnergy (voiceData (ticks envL (Suc n) s0)) =
         lowEnergy (voiceData (ticks envL n s0))
         + attack * (1 - lowEnergy (voiceData (ticks envL n s0)))"
    unfolding up by (simp add: attack_def)
  have up_strict: "lowEnergy (voiceData (ticks envL n s0))
                   < lowEnergy (voiceData (ticks envL (Suc n) s0))"
    unfolding up using p by simp
  have up_below: "lowEnergy (voiceData (ticks envL (Suc n) s0)) < 1"
    unfolding up using p by simp
  have down: "lowEnergy (voiceData (ticks envS m s)) = lowEnergy (voiceData s) * 0.992 ^ m"
    "midEnergy (voiceData (ticks envS m s)) = midEnergy (voiceData s) * 0.992 ^ m"
    "highEnergy (voiceData (ticks envS m s)) = highEnergy (voiceData s) * 0.992 ^ m" for m
    using decay_closed_form [OF hs fall, of m] by (simp_all add: release_def)
  have "voiceInvariant (voiceData (ticks envS n s))"
    using hs(2) by (simp add: ticks_voiceInvariant)
  then have "amplitude (voiceData (ticks envS n s)) =
      max (lowEnergy (voiceData s) * 0.992 ^ n)
        (max (midEnergy (voiceData s) * 0.992 ^ n) (highEnergy (voiceData s) * 0.992 ^ n))"
    by (simp add: voiceInvariant_def down)
  also have "\<dots> = max (lowEnergy (voiceData s)) (max (midEnergy (voiceData s))
                      (highEnergy (voiceData s))) * 0.992 ^ n"
    by (simp add: max_mult_distrib_right)
  also have "\<dots> = amplitude (voiceData s) * 0.992 ^ n"
    using hs(2) by (simp add: voiceInvariant_def)
  finally have down_rec: "voiceData (ticks envS n s) =
         \<lparr>amplitude = amplitude (voiceData s) * 0.992 ^ n,
          lowEnergy = lowEnergy (voiceData s) * 0.992 ^ n,
          midEnergy = midEnergy (voiceData s) * 0.992 ^ n,
          highEnergy = highEnergy (voiceData s) * 0.992 ^ n\<rparr>"
    by (intro VoiceData.equality) (simp_all add: down)
  have down_step: "lowEnergy (voiceData (ticks envS (Suc n) s)) =
         release * lowEnergy (voiceData (ticks envS n s))"
    unfolding down by (simp add: release_def)
  have down_pos: "0 < lowEnergy (voiceData (ticks envS n s))"
    "0 < midEnergy (voiceData (ticks envS n s))" "0 < highEnergy (voiceData (ticks envS n s))"
    unfolding down using pos by simp_all
  show ?thesis
    using basics per_tick up_rec up_step up_strict up_below down_rec down_step down_pos
    by blast
qed

theorem envelope_follower_witness:
  "voiceData (ticks (\<lambda>k. (debugStore, loud)) 2 listening) =
     \<lparr>amplitude = 0.049375, lowEnergy = 0.049375, midEnergy = 0.049375, highEnergy = 0.049375\<rparr>
   \<and> voiceData (ticks (\<lambda>k. (debugStore, silent)) 1 warmedUp) =
     \<lparr>amplitude = 0.0248, lowEnergy = 0.0248, midEnergy = 0.0248, highEnergy = 0.0248\<rparr>"
proof -
  have run: "reachable warmedUp" "analyserRef warmedUp \<noteq> None"
    using reachable_warmedUp by (simp_all add: warmedUp_def runFrame_analyserRef listening_facts)
  have tick: "\<not> isMuted debugStore" "length loud = 128"
    by (simp_all add: debugStore_def loud_def)
  have start: "reachable listening" "analyserRef listening \<noteq> None"
    "voiceData listening = EMPTY_VOICE_DATA"
    by (simp_all add: reachable_listening listening_facts)
      (simp add: listening_def startListening_voiceData)
  have rise: "\<forall>k. \<not> isMuted (fst ((\<lambda>k. (debugStore, loud)) k))
      \<and> noiseGate (fst ((\<lambda>k. (debugStore, loud)) k)) < 1
      \<and> 1.25 \<le> sensitivity (fst ((\<lambda>k. (debugStore, loud)) k))
      \<and> snd ((\<lambda>k. (debugStore, loud)) k) = loud"
    by (simp add: debugStore_def)
  have fall: "\<forall>k. \<not> isMuted (fst ((\<lambda>k. (debugStore, silent)) k))
      \<and> 0 \<le> noiseGate (fst ((\<lambda>k. (debugStore, silent)) k))
      \<and> snd ((\<lambda>k. (debugStore, silent)) k) = silent"
    by (simp add: debugStore_def)
  have pos: "0 < lowEnergy (voiceData warmedUp)" "0 < midEnergy (voiceData warmedUp)"
    "0 < highEnergy (voiceData warmedUp)"
    by (simp_all add: warmedUp_voiceData)
  from envelope_follower [OF run tick start rise fall pos, of 0 0 2]
  have a: "voiceData (ticks (\<lambda>k. (debugStore, loud)) 2 listening) =
     \<lparr>amplitude = 0.049375, lowEnergy = 0.049375, midEnergy = 0.049375, highEnergy = 0.049375\<rparr>"
    by (simp add: power2_eq_square)
  from envelope_follower [OF run tick start rise fall pos, of 0 0 1]
  have b: "voiceData (ticks (\<lambda>k. (debugStore, silent)) 1 warmedUp) =
     \<lparr>amplitude = 0.0248, lowEnergy = 0.0248, midEnergy = 0.0248, highEnergy = 0.0248\<rparr>"
    by (simp add: warmedUp_voiceData)
  show ?thesis using a b by simp
qed

subsection \<open>A start or switch that is refused\<close>

lemma startReset_eq:
  "startReset s =
     s\<lparr>voiceData := EMPTY_VOICE_DATA,
       liveStreams := (case streamRef s of None \<Rightarrow> liveStreams s
                       | Some sid \<Rightarrow> liveStreams s - {sid}),
       pendingFrames := (if rafIdRef s \<noteq> 0 then pendingFrames s - {rafIdRef s}
                         else pendingFrames s)\<rparr>"
  by (simp add: startReset_def cancelFrame_def cancelAnimationFrame_def stopStream_def
      stopTracks_def split: option.splits)

lemma startListening_refused:
  assumes "getUserMedia p (audioConstraints dev) = Inl err"
  shows "startListening p dev s = (False, startReset s)"
  using assms by (simp add: startListening_def)

lemma analyse_running_frames:
  assumes "analyserRef s \<noteq> None" "audioContextRef s \<noteq> None"
  shows "streamRef (analyse st spectrum s) = streamRef s"
    and "liveStreams (analyse st spectrum s) = liveStreams s"
    and "rafIdRef (analyse st spectrum s) = nextHandle s"
    and "pendingFrames (analyse st spectrum s) = insert (nextHandle s) (pendingFrames s)"
proof -
  obtain a c where ac: "analyserRef s = Some a" "audioContextRef s = Some c"
    using assms by auto
  show "streamRef (analyse st spectrum s) = streamRef s"
    and "liveStreams (analyse st spectrum s) = liveStreams s"
    and "rafIdRef (analyse st spectrum s) = nextHandle s"
    and "pendingFrames (analyse st spectrum s) = insert (nextHandle s) (pendingFrames s)"
    by (simp_all add: analyse_def ac Let_def requestAnimationFrame_def)
qed

lemma listening_nextHandle: "nextHandle listening = 2"
  by (simp add: listening_def startListening_def startReset_def cancelFrame_def
      stopStream_def initialHook_def grantingPlatform_def startConnect_def Let_def
      ensureContext_def describeStream_def loadMicrophones_def adoptStream_def
      connectSource_def resumeContext_def requestAnimationFrame_def)

lemma warmedUp_frames:
  "streamRef warmedUp = Some 1" "liveStreams warmedUp = {1}"
  "rafIdRef warmedUp = 2" "pendingFrames warmedUp = {2}"
proof -
  let ?s = "listening\<lparr>pendingFrames := pendingFrames listening - {1}\<rparr>"
  have w: "warmedUp = analyse debugStore loud ?s"
    by (simp add: warmedUp_def runFrame_def listening_facts)
  have a: "analyserRef ?s \<noteq> None" "audioContextRef ?s \<noteq> None"
    by (simp_all add: listening_facts)
  show "streamRef warmedUp = Some 1" "liveStreams warmedUp = {1}"
    "rafIdRef warmedUp = 2" "pendingFrames warmedUp = {2}"
    unfolding w analyse_running_frames [OF a]
    by (simp_all add: listening_facts listening_nextHandle)
qed

lemma denyingPlatform_refuses: "getUserMedia denyingPlatform c = Inl NotAllowedError"
  by (simp add: denyingPlatform_def)

text \<open>
  Claim C2 as stated fails. The session \<open>warmedUp\<close> is reachable and running: its VoiceData
  is non-zero, the tracks of stream \<open>1\<close> are live and frame \<open>2\<close> is scheduled. A switch to
  another device that the platform refuses returns \<open>false\<close>, and afterwards the VoiceData is
  the zero record, stream \<open>1\<close> is stopped and frame \<open>2\<close> is cancelled.
\<close>

theorem refused_switch_counterexample:
  "fst (startListening denyingPlatform (Some ''usb-microphone'') warmedUp) = False
   \<and> voiceData warmedUp = \<lparr>amplitude = 0.025, lowEnergy = 0.025, midEnergy = 0.025,
                             highEnergy = 0.025\<rparr>
   \<and> voiceData (snd (startListening denyingPlatform (Some ''usb-microphone'') warmedUp)) =
       \<lparr>amplitude = 0, lowEnergy = 0, midEnergy = 0, highEnergy = 0\<rparr>
   \<and> 1 \<in> liveStreams warmedUp
   \<and> 1 \<notin> liveStreams (snd (startListening denyingPlatform (Some ''usb-microphone'') warmedUp))
   \<and> 2 \<in> pendingFrames warmedUp
   \<and> 2 \<notin> pendingFrames (snd (startListening denyingPlatform (Some ''usb-microphone'') warmedUp))"
  by (simp add: startListening_refused [OF denyingPlatform_refuses] startReset_eq
      warmedUp_frames warmedUp_voiceData EMPTY_VOICE_DATA_def)

text \<open>
  Claim C2, amended. When \<open>getUserMedia\<close> rejects, \<open>startListening\<close> returns \<open>false\<close> and
  leaves the React state of the hook, the audio context, the analyser node, the source node,
  the stream reference, the frame handle and the byte array as they were; but the VoiceData
  record has been reset to zero, the tracks of the prior stream have been stopped and the
  scheduled analysis frame has been cancelled, since that is done before the device is asked
  for.
\<close>

theorem refused_start_resets_session:
  assumes "getUserMedia p (audioConstraints dev) = Inl err"
  shows "startListening p dev s =
     (False,
      s\<lparr>voiceData := EMPTY_VOICE_DATA,
        liveStreams := (case streamRef s of None \<Rightarrow> liveStreams s
                        | Some sid \<Rightarrow> liveStreams s - {sid}),
        pendingFrames := (if rafIdRef s \<noteq> 0 then pendingFrames s - {rafIdRef s}
                          else pendingFrames s)\<rparr>)"
  using assms by (simp add: startListening_refused startReset_eq)

theorem refused_start_resets_session_witness:
  "getUserMedia denyingPlatform (audioConstraints None) = Inl NotAllowedError
   \<and> startListening denyingPlatform None listening =
       (False, listening\<lparr>voiceData := EMPTY_VOICE_DATA, liveStreams := {}, pendingFrames := {}\<rparr>)"
  using refused_start_resets_session [of denyingPlatform None NotAllowedError listening]
  by (simp add: denyingPlatform_refuses listening_facts)

subsection \<open>Scheduled frames\<close>

lemma startReset_frames:
  assumes "frameInvariant s"
  shows "pendingFrames (startReset s) = {}" "nextHandle (startReset s) = nextHandle s"
  using assms
  by (auto simp: frameInvariant_def startReset_eq)

lemma startConnect_frameInvariant:
  assumes "pendingFrames s = {}" "0 < nextHandle s"
  shows "frameInvariant (snd (startConnect p stream s))"
  using assms
  by (auto simp: startConnect_def Let_def frameInvariant_def requestAnimationFrame_def
      connectSource_def resumeContext_def ensureContext_def describeStream_def
      loadMicrophones_def adoptStream_def split: sum.splits option.splits)

lemma startListening_frameInvariant:
  assumes "frameInvariant s"
  shows "frameInvariant (snd (startListening p dev s))"
proof (cases "getUserMedia p (audioConstraints dev)")
  case (Inl err)
  then show ?thesis
    using startReset_frames [OF assms] assms
    by (simp add: startListening_def frameInvariant_def)
next
  case (Inr stream)
  have "0 < nextHandle (startReset s)"
    using assms startReset_frames(2) [OF assms] by (simp add: frameInvariant_def)
  then show ?thesis
    using Inr startReset_frames(1) [OF assms]
    by (simp add: startListening_def startConnect_frameInvariant)
qed

lemma stopListening_frameInvariant:
  assumes "frameInvariant s"
  shows "frameInvariant (stopListening s)"
  using assms
  by (auto simp: stopListening_def frameInvariant_def stopStream_def stopTracks_def
      cancelAnimationFrame_def split: option.splits)

lemma analyse_running_nextHandle:
  assumes "analyserRef s \<noteq> None" "audioContextRef s \<noteq> None"
  shows "nextHandle (analyse st spectrum s) = nextHandle s + 1"
proof -
  obtain a c where ac: "analyserRef s = Some a" "audioContextRef s = Some c"
    using assms by auto
  show ?thesis
    by (simp add: analyse_def ac Let_def requestAnimationFrame_def)
qed

lemma runFrame_frameInvariant:
  assumes "frameInvariant s"
  shows "frameInvariant (runFrame h st spectrum s)"
proof (cases "h \<in> pendingFrames s")
  case False
  then show ?thesis using assms by (simp add: runFrame_def)
next
  case True
  define s' where "s' = s\<lparr>pendingFrames := pendingFrames s - {h}\<rparr>"
  have a: "analyserRef s' \<noteq> None" "audioContextRef s' \<noteq> None"
    and e: "pendingFrames s' = {}" and n: "0 < nextHandle s'"
    using assms True by (auto simp: frameInvariant_def s'_def)
  have r: "runFrame h st spectrum s = analyse st spectrum s'"
    using True by (simp add: runFrame_def s'_def)
  show ?thesis
    unfolding r frameInvariant_def
    using a e n
    by (simp add: analyse_running_frames [OF a] analyse_running_nextHandle [OF a] analyse_refs)
qed

lemma reachable_frameInvariant: "reachable s \<Longrightarrow> frameInvariant s"
proof (induction rule: reachable.induct)
  case reachable_init
  show ?case by (simp add: initialHook_def frameInvariant_def)
next
  case (reachable_start s p dev)
  then show ?case by (simp add: startListening_frameInvariant)
next
  case (reachable_stop s)
  then show ?case by (simp add: stopListening_frameInvariant)
next
  case (reachable_frame s h st spectrum)
  then show ?case by (simp add: runFrame_frameInvariant)
qed

text \<open>So the guard at the head of \<open>analyse\<close> never fires in a frame the browser runs, and
  a scheduled frame of a muted session is a mute fade.\<close>

lemma scheduled_frame_runs:
  assumes "reachable s" "h \<in> pendingFrames s"
  shows "analyserRef s \<noteq> None" "audioContextRef s \<noteq> None"
  using reachable_frameInvariant [OF assms(1)] assms(2) by (auto simp: frameInvariant_def)

lemma scheduled_mute_frame:
  assumes "reachable s" "h \<in> pendingFrames s" "isMuted st"
  shows "voiceData (runFrame h st spectrum s) = muteFade (voiceData s)"
proof -
  let ?s = "s\<lparr>pendingFrames := pendingFrames s - {h}\<rparr>"
  have "analyserRef ?s \<noteq> None" "audioContextRef ?s \<noteq> None"
    using scheduled_frame_runs [OF assms(1,2)] by simp_all
  from analyse_mute_voiceData [OF this assms(3), of spectrum] show ?thesis
    using assms(2) by (simp add: runFrame_def)
qed

section \<open>Properties of the surface animator\<close>

subsection \<open>What each block of a frame changes\<close>

lemma fadeStep_keeps:
  "uniforms (fadeStep dt b) = uniforms b"
  "currentScale (fadeStep dt b) = currentScale b"
  "smoothedStrength (fadeStep dt b) = smoothedStrength b"
  "raycastFrame (fadeStep dt b) = raycastFrame b"
  by (simp_all add: fadeStep_def Let_def)

lemma meshStep_keeps:
  "uniforms (meshStep m dt a b) = uniforms b"
  "currentScale (meshStep m dt a b) = currentScale b"
  "smoothedStrength (meshStep m dt a b) = smoothedStrength b"
  "raycastFrame (meshStep m dt a b) = raycastFrame b"
  by (simp_all add: meshStep_def Let_def)

lemma levelsStep_keeps:
  "uniforms (levelsStep f b) = uniforms b"
  "currentScale (levelsStep f b) = currentScale b"
  "smoothedStrength (levelsStep f b) = smoothedStrength b"
  "raycastFrame (levelsStep f b) = raycastFrame b"
  "mouseUniforms (levelsStep f b) = mouseUniforms b"
  by (simp_all add: levelsStep_def Let_def)

lemma raycastStep_keeps:
  "uniforms (raycastStep f b) = uniforms b"
  "currentScale (raycastStep f b) = currentScale b"
  "raycastFrame (raycastStep f b) = raycastFrame b + 1"
  by (simp_all add: raycastStep_def Let_def split: list.splits)

lemma raycastStep_strength:
  "smoothedStrength (raycastStep f b) =
     (if meshMounted f \<and> (raycastFrame b + 1) mod 3 = 0
      then (case hits f of [] \<Rightarrow> smoothedStrength b * 0.92
            | h # hs \<Rightarrow> smoothedStrength b + (0.4 - smoothedStrength b) * 0.12)
      else smoothedStrength b)"
  by (simp add: raycastStep_def Let_def split: list.splits)

lemma raycastStep_mouseStrength:
  "meshMounted f \<Longrightarrow> (raycastFrame b + 1) mod 3 = 0 \<Longrightarrow>
     mouseStrength (mouseUniforms (raycastStep f b)) = smoothedStrength (raycastStep f b)"
  by (simp add: raycastStep_def Let_def split: list.splits)

lemma shapeStep_keeps:
  "smoothedStrength (shapeStep v a b) = smoothedStrength b"
  "raycastFrame (shapeStep v a b) = raycastFrame b"
  "time (uniforms (shapeStep v a b)) = time (uniforms b)"
  "surfaceTime (uniforms (shapeStep v a b)) = surfaceTime (uniforms b)"
  by (simp_all add: shapeStep_def Let_def)

lemma shapeStep_shape:
  "distort (uniforms (shapeStep v a b)) =
     approach (distort (uniforms b))
       (IDLE_distort + (ACTIVE_distort - IDLE_distort) * amplitude v)"
  "speed (uniforms (shapeStep v a b)) =
     approach (speed (uniforms b))
       ((IDLE_speed + (ACTIVE_speed - IDLE_speed) * amplitude v) * a)"
  "surfaceDistort (uniforms (shapeStep v a b)) =
     approach (surfaceDistort (uniforms b))
       (IDLE_surfaceDistort
        + (ACTIVE_surfaceDistort - IDLE_surfaceDistort) * max (midEnergy v) (highEnergy v))"
  "surfaceSpeed (uniforms (shapeStep v a b)) =
     approach (surfaceSpeed (uniforms b))
       ((IDLE_surfaceSpeed + (ACTIVE_surfaceSpeed - IDLE_surfaceSpeed) * amplitude v) * a)"
  "currentScale (shapeStep v a b) =
     currentScale b
     + (SCALE_IDLE + (SCALE_ACTIVE - SCALE_IDLE) * amplitude v - currentScale b)
       * (if SCALE_IDLE + (SCALE_ACTIVE - SCALE_IDLE) * amplitude v > currentScale b
          then 0.06 else 0.03)"
  by (simp_all add: shapeStep_def Let_def)

lemma tick_fields:
  "time (tick d u) = time u + d * speed u"
  "surfaceTime (tick d u) = surfaceTime u + d * surfaceSpeed u"
  "distort (tick d u) = distort u"
  "speed (tick d u) = speed u"
  "surfaceDistort (tick d u) = surfaceDistort u"
  "surfaceSpeed (tick d u) = surfaceSpeed u"
  by (simp_all add: tick_def Let_def)

subsection \<open>One frame\<close>

lemma useFrame_clocks:
  "time (uniforms (useFrame f b)) =
     time (uniforms b) + min (delta f) 0.1 * animationSpeed (store f) * speed (uniforms b)"
  "surfaceTime (uniforms (useFrame f b)) =
     surfaceTime (uniforms b)
     + min (delta f) 0.1 * animationSpeed (store f) * surfaceSpeed (uniforms b)"
  unfolding useFrame_def Let_def
  by (simp_all add: levelsStep_keeps raycastStep_keeps meshStep_keeps shapeStep_keeps
      fadeStep_keeps tick_fields)

lemma useFrame_shape:
  "distort (uniforms (useFrame f b)) =
     approach (distort (uniforms b))
       (IDLE_distort + (ACTIVE_distort - IDLE_distort) * amplitude (voice f))"
  "speed (uniforms (useFrame f b)) =
     approach (speed (uniforms b))
       ((IDLE_speed + (ACTIVE_speed - IDLE_speed) * amplitude (voice f))
        * animationSpeed (store f))"
  "surfaceDistort (uniforms (useFrame f b)) =
     approach (surfaceDistort (uniforms b))
       (IDLE_surfaceDistort + (ACTIVE_surfaceDistort - IDLE_surfaceDistort)
                              * max (midEnergy (voice f)) (highEnergy (voice f)))"
  "surfaceSpeed (uniforms (useFrame f b)) =
     approach (surfaceSpeed (uniforms b))
       ((IDLE_surfaceSpeed + (ACTIVE_surfaceSpeed - IDLE_surfaceSpeed) * amplitude (voice f))
        * animationSpeed (store f))"
  unfolding useFrame_def Let_def
  by (simp_all add: levelsStep_keeps raycastStep_keeps meshStep_keeps shapeStep_shape
      fadeStep_keeps tick_fields)

lemma useFrame_scale:
  "currentScale (useFrame f b) =
     currentScale b
     + (SCALE_IDLE + (SCALE_ACTIVE - SCALE_IDLE) * amplitude (voice f) - currentScale b)
       * (if SCALE_IDLE + (SCALE_ACTIVE - SCALE_IDLE) * amplitude (voice f) > currentScale b
          then 0.06 else 0.03)"
  unfolding useFrame_def Let_def
  by (simp add: levelsStep_keeps raycastStep_keeps meshStep_keeps shapeStep_shape
      fadeStep_keeps)

lemma useFrame_raycast:
  "raycastFrame (useFrame f b) = raycastFrame b + 1"
  "smoothedStrength (useFrame f b) =
     (if meshMounted f \<and> (raycastFrame b + 1) mod 3 = 0
      then (case hits f of [] \<Rightarrow> smoothedStrength b * 0.92
            | h # hs \<Rightarrow> smoothedStrength b + (0.4 - smoothedStrength b) * 0.12)
      else smoothedStrength b)"
  unfolding useFrame_def Let_def
  by (simp_all add: levelsStep_keeps raycastStep_keeps raycastStep_strength meshStep_keeps
      shapeStep_keeps fadeStep_keeps split: list.splits)

text \<open>A smoothing step moves a value part of the way to its target, never past it.\<close>

lemma lr_range: "0 < lr c t" "lr c t < 1"
  by (simp_all add: lr_def attackRate_def releaseRate_def)

lemma blend_between:
  assumes "lo \<le> (c::real)" "c \<le> hi" "lo \<le> t" "t \<le> hi" "0 \<le> r" "r \<le> 1"
  shows "lo \<le> c + (t - c) * r" "c + (t - c) * r \<le> hi"
proof -
  have "0 \<le> (1 - r) * (c - lo) + r * (t - lo)"
    by (intro add_nonneg_nonneg mult_nonneg_nonneg) (use assms in simp_all)
  then show "lo \<le> c + (t - c) * r" by (simp add: algebra_simps)
  have "0 \<le> (1 - r) * (hi - c) + r * (hi - t)"
    by (intro add_nonneg_nonneg mult_nonneg_nonneg) (use assms in simp_all)
  then show "c + (t - c) * r \<le> hi" by (simp add: algebra_simps)
qed

lemma approach_between:
  assumes "lo \<le> c" "c \<le> hi" "lo \<le> t" "t \<le> hi"
  shows "lo \<le> approach c t" "approach c t \<le> hi"
  unfolding approach_def
  using blend_between [OF assms, of "lr c t"] lr_range [of c t] by simp_all

subsection \<open>Sequences of frames: convergence to the idle shape\<close>

lemma frames_raycastFrame: "raycastFrame (frames fs n b) = raycastFrame b + n"
  by (induction n) (simp_all add: useFrame_raycast)

text \<open>A value that each step moves towards a fixed target by at least a fixed fraction of
  the distance converges to the target.\<close>

lemma contraction_converges:
  fixes x :: "nat \<Rightarrow> real"
  assumes step: "\<And>n. \<bar>x (Suc n) - T\<bar> \<le> q * \<bar>x n - T\<bar>" and q: "0 \<le> q" "q < 1"
  shows "x \<longlonglongrightarrow> T"
proof -
  have bound: "\<bar>x n - T\<bar> \<le> q ^ n * \<bar>x 0 - T\<bar>" for n
  proof (induction n)
    case 0
    show ?case by simp
  next
    case (Suc n)
    have "\<bar>x (Suc n) - T\<bar> \<le> q * \<bar>x n - T\<bar>" by (rule step)
    also have "\<dots> \<le> q * (q ^ n * \<bar>x 0 - T\<bar>)"
      using Suc.IH q(1) by (rule mult_left_mono)
    finally show ?case by (simp add: mult.assoc)
  qed
  have "(\<lambda>n. q ^ n) \<longlonglongrightarrow> 0"
    using q by (rule LIMSEQ_realpow_zero)
  moreover have "eventually (\<lambda>n. norm (x n - T) \<le> norm (q ^ n) * \<bar>x 0 - T\<bar>) sequentially"
    using bound q(1) by (simp add: eventually_sequentially)
  ultimately have "(\<lambda>n. x n - T) \<longlonglongrightarrow> 0"
    by (rule tendsto_0_le)
  then show ?thesis by (rule LIM_zero_cancel)
qed

lemma blend_contracts:
  fixes c :: real
  assumes "rho \<le> r" "r \<le> 1"
  shows "\<bar>c + (t - c) * r - t\<bar> \<le> (1 - rho) * \<bar>c - t\<bar>"
proof -
  have "c + (t - c) * r - t = (1 - r) * (c - t)"
    by (simp add: algebra_simps)
  then have "\<bar>c + (t - c) * r - t\<bar> = (1 - r) * \<bar>c - t\<bar>"
    using assms by (simp add: abs_mult)
  also have "\<dots> \<le> (1 - rho) * \<bar>c - t\<bar>"
    using assms by (intro mult_right_mono) simp_all
  finally show ?thesis .
qed

lemma approach_contracts: "\<bar>approach c t - t\<bar> \<le> 0.992 * \<bar>c - t\<bar>"
proof -
  have "0.008 \<le> lr c t" "lr c t \<le> 1"
    by (simp_all add: lr_def attackRate_def releaseRate_def)
  from blend_contracts [OF this, of c t] show ?thesis
    by (simp add: approach_def)
qed

lemma approach_converges:
  assumes "\<And>n. x (Suc n) = approach (x n) T"
  shows "x \<longlonglongrightarrow> T"
proof (rule contraction_converges [where q = "0.992"])
  show "\<bar>x (Suc n) - T\<bar> \<le> 0.992 * \<bar>x n - T\<bar>" for n
    unfolding assms by (rule approach_contracts)
qed simp_all

lemma idle_constants:
  "IDLE_distort = 0.6" "IDLE_speed = 0.5" "IDLE_surfaceDistort = 1.4" "IDLE_surfaceSpeed = 0.4"
  by (simp_all add: IDLE_distort_def IDLE_speed_def IDLE_surfaceDistort_def
      IDLE_surfaceSpeed_def BLOB_DEFAULTS_def)

text \<open>
  Claim C6. With the amplitude of the VoiceData held at \<open>0\<close> (and hence, by the invariant of
  the record, the mid and high energies too) and the animation speed held at \<open>a\<close>, the smoothed
  parameters converge from any state of the component: \<open>distort\<close> to \<open>0.6\<close>, \<open>speed\<close> to
  \<open>0.5 * a\<close>, \<open>surfaceDistort\<close> to \<open>1.4\<close> and the breathing scale to \<open>0.64\<close>; that is, they end
  within any tolerance of the idle tuple.
\<close>

theorem idle_convergence:
  assumes "\<forall>k. voiceInvariant (voice (fs k)) \<and> amplitude (voice (fs k)) = 0
               \<and> animationSpeed (store (fs k)) = a"
  shows "(\<lambda>n. distort (uniforms (frames fs n b))) \<longlonglongrightarrow> 0.6
       \<and> (\<lambda>n. speed (uniforms (frames fs n b))) \<longlonglongrightarrow> 0.5 * a
       \<and> (\<lambda>n. surfaceDistort (uniforms (frames fs n b))) \<longlonglongrightarrow> 1.4
       \<and> (\<lambda>n. currentScale (frames fs n b)) \<longlonglongrightarrow> 0.64"
proof -
  have v: "amplitude (voice (fs k)) = 0" "max (midEnergy (voice (fs k))) (highEnergy (voice (fs k))) = 0"
    "animationSpeed (store (fs k)) = a" for k
    using assms [rule_format, of k] by (auto simp: voiceInvariant_def)
  have d: "(\<lambda>n. distort (uniforms (frames fs n b))) \<longlonglongrightarrow> 0.6"
    by (rule approach_converges) (simp add: useFrame_shape v idle_constants)
  have s: "(\<lambda>n. speed (uniforms (frames fs n b))) \<longlonglongrightarrow> 0.5 * a"
    by (rule approach_converges) (simp add: useFrame_shape v idle_constants)
  have sd: "(\<lambda>n. surfaceDistort (uniforms (frames fs n b))) \<longlonglongrightarrow> 1.4"
    by (rule approach_converges) (simp add: useFrame_shape v idle_constants)
  have sc: "(\<lambda>n. currentScale (frames fs n b)) \<longlonglongrightarrow> 0.64"
  proof (rule contraction_converges [where q = "0.97"])
    fix n
    let ?c = "currentScale (frames fs n b)"
    have "\<bar>?c + (0.64 - ?c) * (if 0.64 > ?c then 0.06 else 0.03) - 0.64\<bar>
          \<le> (1 - 0.03) * \<bar>?c - 0.64\<bar>"
      by (rule blend_contracts) simp_all
    then show "\<bar>currentScale (frames fs (Suc n) b) - 0.64\<bar>
               \<le> 0.97 * \<bar>currentScale (frames fs n b) - 0.64\<bar>"
      by (simp add: useFrame_scale v SCALE_IDLE_def)
  qed simp_all
  show ?thesis using d s sd sc by simp
qed

theorem idle_convergence_witness:
  "(\<lambda>n. distort (uniforms (frames (\<lambda>k. quietFrame) n initialBlob))) \<longlonglongrightarrow> 0.6
   \<and> (\<lambda>n. speed (uniforms (frames (\<lambda>k. quietFrame) n initialBlob))) \<longlonglongrightarrow> 0.5
   \<and> (\<lambda>n. surfaceDistort (uniforms (frames (\<lambda>k. quietFrame) n initialBlob))) \<longlonglongrightarrow> 1.4
   \<and> (\<lambda>n. currentScale (frames (\<lambda>k. quietFrame) n initialBlob)) \<longlonglongrightarrow> 0.64"
proof -
  have "\<forall>k. voiceInvariant (voice ((\<lambda>k. quietFrame) k))
            \<and> amplitude (voice ((\<lambda>k. quietFrame) k)) = 0
            \<and> animationSpeed (store ((\<lambda>k. quietFrame) k)) = 1"
    by (simp add: quietFrame_def voiceInvariant_def debugStore_def EMPTY_VOICE_DATA_def)
  from idle_convergence [OF this, of initialBlob] show ?thesis by simp
qed

subsection \<open>Bounds of the smoothed shape parameters\<close>

lemma active_constants:
  "ACTIVE_distort = 0.7" "ACTIVE_surfaceDistort = 1.7" "SCALE_IDLE = 0.64" "SCALE_ACTIVE = 0.96"
  by (simp_all add: ACTIVE_distort_def ACTIVE_surfaceDistort_def SCALE_IDLE_def SCALE_ACTIVE_def)

lemma initialBlob_shape:
  "distort (uniforms initialBlob) = 0.6" "speed (uniforms initialBlob) = 0.5"
  "surfaceDistort (uniforms initialBlob) = 1.4" "surfaceSpeed (uniforms initialBlob) = 0.4"
  "currentScale initialBlob = 0.64" "time (uniforms initialBlob) = 0"
  "surfaceTime (uniforms initialBlob) = 0"
  by (simp_all add: initialBlob_def BLOB_DEFAULTS_def SCALE_IDLE_def)

lemma lerp_target_range:
  fixes t :: real
  assumes "0 \<le> t" "t \<le> 1" "lo \<le> hi"
  shows "lo \<le> lo + (hi - lo) * t" "lo + (hi - lo) * t \<le> hi"
proof -
  show "lo \<le> lo + (hi - lo) * t" using assms by simp
  have "(hi - lo) * t \<le> (hi - lo) * 1"
    by (intro mult_left_mono) (use assms in simp_all)
  then show "lo + (hi - lo) * t \<le> hi" by simp
qed

lemma approach_lerp_bounds:
  assumes "lo \<le> c" "c \<le> hi" "0 \<le> t" "t \<le> 1" "lo \<le> hi"
  shows "lo \<le> approach c (lo + (hi - lo) * t)" "approach c (lo + (hi - lo) * t) \<le> hi"
  using approach_between [OF assms(1,2) lerp_target_range [OF assms(3,4,5)]] by simp_all

lemma blend_lerp_bounds:
  fixes c :: real
  assumes "lo \<le> c" "c \<le> hi" "0 \<le> t" "t \<le> 1" "lo \<le> hi" "0 \<le> r" "r \<le> 1"
  shows "lo \<le> c + (lo + (hi - lo) * t - c) * r" "c + (lo + (hi - lo) * t - c) * r \<le> hi"
  using blend_between [OF assms(1,2) lerp_target_range [OF assms(3,4,5)] assms(6,7)]
  by simp_all

text \<open>
  Claim C10. From the default uniforms and the idle scale, whatever the frames are, as long
  as the amplitude, mid and high energies read in each frame lie in \<open>[0, 1]\<close>, after every
  frame \<open>distort\<close> is in \<open>[0.6, 0.70]\<close>, \<open>surfaceDistort\<close> in \<open>[1.4, 1.7]\<close> and the breathing
  scale in \<open>[0.64, 0.96]\<close>.
\<close>

theorem shape_parameters_bounded:
  assumes "\<forall>k. 0 \<le> amplitude (voice (fs k)) \<and> amplitude (voice (fs k)) \<le> 1
               \<and> 0 \<le> midEnergy (voice (fs k)) \<and> midEnergy (voice (fs k)) \<le> 1
               \<and> 0 \<le> highEnergy (voice (fs k)) \<and> highEnergy (voice (fs k)) \<le> 1"
  shows "0.6 \<le> distort (uniforms (frames fs n initialBlob))
       \<and> distort (uniforms (frames fs n initialBlob)) \<le> 0.70
       \<and> 1.4 \<le> surfaceDistort (uniforms (frames fs n initialBlob))
       \<and> surfaceDistort (uniforms (frames fs n initialBlob)) \<le> 1.7
       \<and> 0.64 \<le> currentScale (frames fs n initialBlob)
       \<and> currentScale (frames fs n initialBlob) \<le> 0.96"
proof (induction n)
  case 0
  show ?case by (simp add: initialBlob_shape)
next
  case (Suc n)
  let ?b = "frames fs n initialBlob"
  let ?v = "voice (fs n)"
  have a: "0 \<le> amplitude ?v" "amplitude ?v \<le> 1"
    and m: "0 \<le> max (midEnergy ?v) (highEnergy ?v)" "max (midEnergy ?v) (highEnergy ?v) \<le> 1"
    using assms [rule_format, of n] by auto
  have d: "0.6 \<le> distort (uniforms (useFrame (fs n) ?b))"
    "distort (uniforms (useFrame (fs n) ?b)) \<le> 0.7"
    using approach_lerp_bounds [of IDLE_distort "distort (uniforms ?b)" ACTIVE_distort
        "amplitude ?v"] Suc.IH a
    by (simp_all add: useFrame_shape idle_constants active_constants)
  have s: "1.4 \<le> surfaceDistort (uniforms (useFrame (fs n) ?b))"
    "surfaceDistort (uniforms (useFrame (fs n) ?b)) \<le> 1.7"
    using approach_lerp_bounds [of IDLE_surfaceDistort "surfaceDistort (uniforms ?b)"
        ACTIVE_surfaceDistort "max (midEnergy ?v) (highEnergy ?v)"] Suc.IH m
    by (simp_all add: useFrame_shape idle_constants active_constants)
  have c: "0.64 \<le> currentScale (useFrame (fs n) ?b)"
    "currentScale (useFrame (fs n) ?b) \<le> 0.96"
    using blend_lerp_bounds [of SCALE_IDLE "currentScale ?b" SCALE_ACTIVE "amplitude ?v"
        "if SCALE_IDLE + (SCALE_ACTIVE - SCALE_IDLE) * amplitude ?v > currentScale ?b
         then 0.06 else 0.03"] Suc.IH a
    by (simp_all add: useFrame_scale active_constants)
  show ?case using d s c by simp
qed

theorem shape_parameters_bounded_witness:
  "0.6 \<le> distort (uniforms (frames (\<lambda>k. loudFrame) 2 initialBlob))
   \<and> distort (uniforms (frames (\<lambda>k. loudFrame) 2 initialBlob)) \<le> 0.70
   \<and> 1.4 \<le> surfaceDistort (uniforms (frames (\<lambda>k. loudFrame) 2 initialBlob))
   \<and> surfaceDistort (uniforms (frames (\<lambda>k. loudFrame) 2 initialBlob)) \<le> 1.7
   \<and> 0.64 \<le> currentScale (frames (\<lambda>k. loudFrame) 2 initialBlob)
   \<and> currentScale (frames (\<lambda>k. loudFrame) 2 initialBlob) \<le> 0.96"
proof -
  have "\<forall>k. 0 \<le> amplitude (voice ((\<lambda>k. loudFrame) k))
      \<and> amplitude (voice ((\<lambda>k. loudFrame) k)) \<le> 1
      \<and> 0 \<le> midEnergy (voice ((\<lambda>k. loudFrame) k)) \<and> midEnergy (voice ((\<lambda>k. loudFrame) k)) \<le> 1
      \<and> 0 \<le> highEnergy (voice ((\<lambda>k. loudFrame) k))
      \<and> highEnergy (voice ((\<lambda>k. loudFrame) k)) \<le> 1"
    by (simp add: loudFrame_def)
  from shape_parameters_bounded [OF this, of 2] show ?thesis .
qed

subsection \<open>The animation clocks\<close>

lemma approach_lower:
  assumes "lo \<le> c" "lo \<le> t"
  shows "lo \<le> approach c t"
  using approach_between(1) [of lo c "max c t" t] assms by simp

lemma speeds_lower:
  assumes "0 \<le> a"
    and "\<forall>k. a \<le> animationSpeed (store (fs k)) \<and> 0 \<le> amplitude (voice (fs k))"
  shows "min 0.5 (0.5 * a) \<le> speed (uniforms (frames fs n initialBlob))
       \<and> min 0.4 (0.4 * a) \<le> surfaceSpeed (uniforms (frames fs n initialBlob))"
proof (induction n)
  case 0
  show ?case by (simp add: initialBlob_shape min_def)
next
  case (Suc n)
  let ?A = "animationSpeed (store (fs n))"
  let ?amp = "amplitude (voice (fs n))"
  have e: "a \<le> ?A" "0 \<le> ?amp"
    using assms(2) by simp_all
  have "0.5 * a \<le> (0.5 + 0.08 * ?amp) * a"
    using e(2) assms(1) by (intro mult_right_mono) simp_all
  also have "\<dots> \<le> (0.5 + 0.08 * ?amp) * ?A"
    using e by (intro mult_left_mono) simp_all
  finally have t1: "min 0.5 (0.5 * a) \<le> (0.5 + 0.08 * ?amp) * ?A" by simp
  have "0.4 * a \<le> (0.4 + 0.08 * ?amp) * a"
    using e(2) assms(1) by (intro mult_right_mono) simp_all
  also have "\<dots> \<le> (0.4 + 0.08 * ?amp) * ?A"
    using e by (intro mult_left_mono) simp_all
  finally have t2: "min 0.4 (0.4 * a) \<le> (0.4 + 0.08 * ?amp) * ?A" by simp
  have c1: "IDLE_speed + (ACTIVE_speed - IDLE_speed) * ?amp = 0.5 + 0.08 * ?amp"
    and c2: "IDLE_surfaceSpeed + (ACTIVE_surfaceSpeed - IDLE_surfaceSpeed) * ?amp
             = 0.4 + 0.08 * ?amp"
    by (simp_all add: idle_constants ACTIVE_speed_def ACTIVE_surfaceSpeed_def)
  show ?case
    using Suc.IH t1 t2 unfolding frames.simps useFrame_shape c1 c2
    by (intro conjI approach_lower) simp_all
qed

lemma frame_clock_gain:
  assumes "d \<le> delta f" "0 \<le> d" "a \<le> animationSpeed (store f)" "0 \<le> a"
    and "c \<le> speed (uniforms b)" "0 \<le> c" "c' \<le> surfaceSpeed (uniforms b)" "0 \<le> c'"
  shows "time (uniforms b) + min d 0.1 * a * c \<le> time (uniforms (useFrame f b))"
    and "surfaceTime (uniforms b) + min d 0.1 * a * c' \<le> surfaceTime (uniforms (useFrame f b))"
proof -
  have m: "min d 0.1 \<le> min (delta f) 0.1" "0 \<le> min d 0.1" "0 \<le> min (delta f) 0.1"
    using assms(1,2) by (simp_all add: min_def)
  have A: "0 \<le> animationSpeed (store f)"
    using assms(3,4) by simp
  have ma: "min d 0.1 * a \<le> min (delta f) 0.1 * animationSpeed (store f)"
    by (rule mult_mono [OF m(1) assms(3) m(3) assms(4)])
  have nn: "0 \<le> min (delta f) 0.1 * animationSpeed (store f)"
    by (rule mult_nonneg_nonneg [OF m(3) A])
  have "min d 0.1 * a * c \<le> min (delta f) 0.1 * animationSpeed (store f) * speed (uniforms b)"
    by (rule mult_mono [OF ma assms(5) nn assms(6)])
  then show "time (uniforms b) + min d 0.1 * a * c \<le> time (uniforms (useFrame f b))"
    by (simp add: useFrame_clocks)
  have "min d 0.1 * a * c'
        \<le> min (delta f) 0.1 * animationSpeed (store f) * surfaceSpeed (uniforms b)"
    by (rule mult_mono [OF ma assms(7) nn assms(8)])
  then show "surfaceTime (uniforms b) + min d 0.1 * a * c'
             \<le> surfaceTime (uniforms (useFrame f b))"
    by (simp add: useFrame_clocks)
qed

lemma clocks_grow:
  assumes "0 \<le> d" "0 \<le> a"
    and "\<forall>k. d \<le> delta (fs k) \<and> a \<le> animationSpeed (store (fs k))
             \<and> 0 \<le> amplitude (voice (fs k))"
  shows "real n * (min d 0.1 * a * min 0.5 (0.5 * a)) \<le> time (uniforms (frames fs n initialBlob))
       \<and> real n * (min d 0.1 * a * min 0.4 (0.4 * a))
           \<le> surfaceTime (uniforms (frames fs n initialBlob))"
proof (induction n)
  case 0
  show ?case by (simp add: initialBlob_shape)
next
  case (Suc n)
  let ?b = "frames fs n initialBlob"
  have e: "d \<le> delta (fs n)" "a \<le> animationSpeed (store (fs n))"
    using assms(3) by simp_all
  have s: "min 0.5 (0.5 * a) \<le> speed (uniforms ?b)"
    "min 0.4 (0.4 * a) \<le> surfaceSpeed (uniforms ?b)"
    using speeds_lower [OF assms(2), of fs n] assms(3) by simp_all
  have p: "0 \<le> min 0.5 (0.5 * a)" "0 \<le> min 0.4 (0.4 * a)"
    using assms(2) by simp_all
  note g = frame_clock_gain [OF e(1) assms(1) e(2) assms(2) s(1) p(1) s(2) p(2)]
  show ?case
    using Suc.IH g by (simp add: algebra_simps)
qed

text \<open>
  Claim C7. In each frame the animation clock \<open>time\<close> grows by
  \<open>dt * speed * animationSpeed\<close> and the surface clock \<open>surfaceTime\<close> by
  \<open>dt * surfaceSpeed * animationSpeed\<close>, where \<open>dt = min delta 0.1\<close> and \<open>speed\<close>,
  \<open>surfaceSpeed\<close> are the uniforms at the start of the frame; nothing wraps or resets
  them. From the initial state, with frame deltas, animation speed and amplitude never
  negative, neither clock ever decreases; and with deltas of at least \<open>d > 0\<close> and an
  animation speed of at least \<open>a > 0\<close> both clocks pass every bound.
\<close>

theorem clock_advance:
  assumes "\<forall>k. 0 \<le> delta (fs k) \<and> 0 \<le> animationSpeed (store (fs k))
               \<and> 0 \<le> amplitude (voice (fs k))"
    and "0 < d" "0 < a"
    and "\<forall>k. d \<le> delta (gs k) \<and> a \<le> animationSpeed (store (gs k))
             \<and> 0 \<le> amplitude (voice (gs k))"
  shows "time (tick dl u) = time u + dl * speed u
       \<and> surfaceTime (tick dl u) = surfaceTime u + dl * surfaceSpeed u
       \<and> time (uniforms (useFrame f b)) =
           time (uniforms b) + min (delta f) 0.1 * speed (uniforms b) * animationSpeed (store f)
       \<and> surfaceTime (uniforms (useFrame f b)) =
           surfaceTime (uniforms b)
           + min (delta f) 0.1 * surfaceSpeed (uniforms b) * animationSpeed (store f)
       \<and> time (uniforms (frames fs n initialBlob))
           \<le> time (uniforms (frames fs (Suc n) initialBlob))
       \<and> surfaceTime (uniforms (frames fs n initialBlob))
           \<le> surfaceTime (uniforms (frames fs (Suc n) initialBlob))
       \<and> (\<exists>n. B < time (uniforms (frames gs n initialBlob)))
       \<and> (\<exists>n. B < surfaceTime (uniforms (frames gs n initialBlob)))"
proof -
  have step: "time (uniforms (useFrame f b)) =
           time (uniforms b) + min (delta f) 0.1 * speed (uniforms b) * animationSpeed (store f)"
    "surfaceTime (uniforms (useFrame f b)) =
           surfaceTime (uniforms b)
           + min (delta f) 0.1 * surfaceSpeed (uniforms b) * animationSpeed (store f)"
    by (simp_all add: useFrame_clocks)
  let ?b = "frames fs n initialBlob"
  have z: "(0::real) \<le> 0" by simp
  have e: "0 \<le> delta (fs n)" "0 \<le> animationSpeed (store (fs n))"
    using assms(1) by simp_all
  have s: "0 \<le> speed (uniforms ?b)" "0 \<le> surfaceSpeed (uniforms ?b)"
    using speeds_lower [OF z, of fs n] assms(1) by simp_all
  have mono: "time (uniforms ?b) \<le> time (uniforms (frames fs (Suc n) initialBlob))"
    "surfaceTime (uniforms ?b) \<le> surfaceTime (uniforms (frames fs (Suc n) initialBlob))"
    using frame_clock_gain [OF e(1) z e(2) z s(1) z s(2) z] by simp_all
  have pos: "0 < min d 0.1 * a * min 0.5 (0.5 * a)" "0 < min d 0.1 * a * min 0.4 (0.4 * a)"
    using assms(2,3) by simp_all
  have d0: "0 \<le> d" and a0: "0 \<le> a" using assms(2,3) by simp_all
  obtain n1 where "B < real n1 * (min d 0.1 * a * min 0.5 (0.5 * a))"
    using reals_Archimedean3 [OF pos(1)] by blast
  then have u1: "\<exists>n. B < time (uniforms (frames gs n initialBlob))"
    using clocks_grow [OF d0 a0 assms(4), of n1] by (intro exI [of _ n1]) linarith
  obtain n2 where "B < real n2 * (min d 0.1 * a * min 0.4 (0.4 * a))"
    using reals_Archimedean3 [OF pos(2)] by blast
  then have u2: "\<exists>n. B < surfaceTime (uniforms (frames gs n initialBlob))"
    using clocks_grow [OF d0 a0 assms(4), of n2] by (intro exI [of _ n2]) linarith
  show ?thesis
    using step mono u1 u2 by (simp add: tick_fields)
qed

theorem clock_advance_witness:
  "time (uniforms (useFrame loudFrame initialBlob)) = 0.008
   \<and> surfaceTime (uniforms (useFrame loudFrame initialBlob)) = 0.0064
   \<and> (\<exists>n. 1000 < time (uniforms (frames (\<lambda>k. loudFrame) n initialBlob)))
   \<and> (\<exists>n. 1000 < surfaceTime (uniforms (frames (\<lambda>k. loudFrame) n initialBlob)))"
proof -
  have a: "\<forall>k. 0 \<le> delta ((\<lambda>k. loudFrame) k) \<and> 0 \<le> animationSpeed (store ((\<lambda>k. loudFrame) k))
               \<and> 0 \<le> amplitude (voice ((\<lambda>k. loudFrame) k))"
    by (simp add: loudFrame_def debugStore_def)
  have b: "(0::real) < 0.016" "(0::real) < 1" by simp_all
  have c: "\<forall>k. 0.016 \<le> delta ((\<lambda>k. loudFrame) k)
               \<and> 1 \<le> animationSpeed (store ((\<lambda>k. loudFrame) k))
               \<and> 0 \<le> amplitude (voice ((\<lambda>k. loudFrame) k))"
    by (simp add: loudFrame_def debugStore_def)
  from clock_advance [OF a b c, where f = loudFrame and b = initialBlob and B = 1000]
  show ?thesis
    by (simp add: initialBlob_shape loudFrame_def debugStore_def)
qed

subsection \<open>The pointer strength while the pointer misses the surface\<close>

lemma evaluations_step:
  fixes c n :: nat
  shows "(c + Suc n) div 3 - c div 3 =
           (if (c + n + 1) mod 3 = 0 then Suc ((c + n) div 3 - c div 3)
            else (c + n) div 3 - c div 3)"
proof -
  have le: "c div 3 \<le> (c + n) div 3" by (simp add: div_le_mono)
  have "(c + Suc n) div 3 =
          (if Suc (c + n) mod 3 = 0 then Suc ((c + n) div 3) else (c + n) div 3)"
    by (simp add: div_Suc)
  then show ?thesis using le by (simp add: Suc_diff_le)
qed

lemma evaluations_three: "((c::nat) + 3 * k) div 3 - c div 3 = k"
  by simp

lemma evaluations_mono: "((c::nat) + n) div 3 - c div 3 \<le> (c + Suc n) div 3 - c div 3"
  by (simp add: evaluations_step)

lemma miss_decay:
  assumes "\<forall>k. meshMounted (fs k) \<and> hits (fs k) = []"
  shows "smoothedStrength (frames fs n b) =
           smoothedStrength b * 0.92 ^ ((raycastFrame b + n) div 3 - raycastFrame b div 3)"
proof (induction n)
  case 0
  show ?case by simp
next
  case (Suc n)
  let ?c = "raycastFrame b"
  have m: "meshMounted (fs n)" "hits (fs n) = []"
    using assms by simp_all
  have s: "smoothedStrength (frames fs (Suc n) b) =
             (if (?c + n + 1) mod 3 = 0 then smoothedStrength (frames fs n b) * 0.92
              else smoothedStrength (frames fs n b))"
    using m by (simp add: useFrame_raycast frames_raycastFrame)
  show ?case
    unfolding s evaluations_step Suc.IH by simp
qed

text \<open>
  Claim C8. From an interaction strength of \<open>0.4\<close>, while the mesh is mounted and the ray
  misses it, the strength after \<open>3 * N\<close> frames, that is after \<open>N\<close> throttled evaluations, is
  exactly \<open>0.4 * 0.92 ^ N\<close>; after any number of frames it is \<open>0.4 * 0.92 ^ E\<close> for the
  number \<open>E\<close> of evaluations so far. It is strictly smaller after each evaluation, never
  larger after a frame, and always positive.
\<close>

theorem pointer_miss_decay:
  assumes "\<forall>k. meshMounted (fs k) \<and> hits (fs k) = []" "smoothedStrength b = 0.4"
  shows "smoothedStrength (frames fs (3 * N) b) = 0.4 * 0.92 ^ N
       \<and> smoothedStrength (frames fs n b) =
           0.4 * 0.92 ^ ((raycastFrame b + n) div 3 - raycastFrame b div 3)
       \<and> smoothedStrength (frames fs (3 * Suc N) b) < smoothedStrength (frames fs (3 * N) b)
       \<and> smoothedStrength (frames fs (Suc n) b) \<le> smoothedStrength (frames fs n b)
       \<and> 0 < smoothedStrength (frames fs n b)"
proof -
  note d = miss_decay [OF assms(1), of _ b, unfolded assms(2)]
  have a: "smoothedStrength (frames fs (3 * k) b) = 0.4 * 0.92 ^ k" for k
    using d [of "3 * k"] by (simp only: evaluations_three)
  have lt: "smoothedStrength (frames fs (3 * Suc N) b) < smoothedStrength (frames fs (3 * N) b)"
    unfolding a by simp
  have "(raycastFrame b + n) div 3 - raycastFrame b div 3
        \<le> (raycastFrame b + Suc n) div 3 - raycastFrame b div 3"
    by (rule evaluations_mono)
  then have "(0.92::real) ^ ((raycastFrame b + Suc n) div 3 - raycastFrame b div 3)
             \<le> 0.92 ^ ((raycastFrame b + n) div 3 - raycastFrame b div 3)"
    by (intro power_decreasing) simp_all
  then have le: "smoothedStrength (frames fs (Suc n) b) \<le> smoothedStrength (frames fs n b)"
    unfolding d by simp
  have pos: "0 < smoothedStrength (frames fs n b)"
    unfolding d by simp
  show ?thesis using a [of N] d [of n] lt le pos by simp
qed

theorem pointer_miss_decay_witness:
  "smoothedStrength (frames (\<lambda>k. quietFrame) 6 (initialBlob\<lparr>smoothedStrength := 0.4\<rparr>)) = 0.33856"
proof -
  have a: "\<forall>k. meshMounted ((\<lambda>k. quietFrame) k) \<and> hits ((\<lambda>k. quietFrame) k) = []"
    by (simp add: quietFrame_def)
  have b: "smoothedStrength (initialBlob\<lparr>smoothedStrength := 0.4\<rparr>) = 0.4" by simp
  from pointer_miss_decay [OF a b, of 2] show ?thesis
    by (simp add: power2_eq_square)
qed

section \<open>Properties of the displacement function\<close>






subsection \<open>A periodic gradient noise makes the loop seamless\<close>









end
